theory Spec2Isabelle
  imports Main
begin

section \<open>Strings\<close>

text \<open>
  JavaScript's \<open>String.prototype.startsWith\<close> and \<open>String.prototype.includes\<close>, on
  strings as character lists. \<open>startsWith s p\<close> is \<open>s.startsWith(p)\<close> and
  \<open>str_includes s n\<close> is \<open>s.includes(n)\<close>.
\<close>

fun startsWith :: "string \<Rightarrow> string \<Rightarrow> bool" where
  "startsWith s [] = True"
| "startsWith [] (p # ps) = False"
| "startsWith (c # cs) (p # ps) = (c = p \<and> startsWith cs ps)"

fun str_includes :: "string \<Rightarrow> string \<Rightarrow> bool" where
  "str_includes [] n = (n = [])"
| "str_includes (c # cs) n = (startsWith (c # cs) n \<or> str_includes cs n)"

section \<open>The caching API client\<close>

subsection \<open>State\<close>

text \<open>
  A cached record as \<open>saveToCache\<close> serialises it: \<open>{data, timestamp, expiresAt}\<close>.
  The hook \<open>useCachedData\<close> writes records under the same key format without the
  \<open>expiresAt\<close> field, so the field is optional when a record is read back. An item
  of the store is either such a record or a string that \<open>JSON.parse\<close> rejects.
\<close>

record 'v cache_record =
  data :: 'v
  timestamp :: int
  expiresAt :: "int option"

datatype 'v stored = Parsed "'v cache_record" | Unparsable

text \<open>
  The credentials that the classes \<open>XtreamAPI\<close> and \<open>OptimizedXtreamAPI\<close> both hold.
\<close>

record xtream =
  username :: string
  password :: string
  baseUrl :: string
  isAuthenticated :: bool

text \<open>
  \<open>OptimizedXtreamAPI\<close> adds \<open>abortControllers\<close>. The other fields are its
  environment: \<open>asyncStorage\<close> is the content of \<open>AsyncStorage\<close>, a list of key/value
  pairs; an \<open>AbortController\<close> is identified by a number,
  \<open>aborted\<close> holds the controllers whose \<open>abort()\<close> has been called,
  and \<open>requests\<close> records every call of \<open>optimizedFetch\<close> (controller and URL), in order.
\<close>

record 'v api_state = xtream +
  abortControllers :: "string \<rightharpoonup> nat"
  aborted :: "nat set"
  controllersCreated :: nat
  asyncStorage :: "(string \<times> 'v stored) list"
  requests :: "(nat \<times> string) list"

text \<open>
  A client as the class initialisers leave it, over a given content of the store, and the
  method \<open>initialize\<close>.
\<close>

definition new_client :: "(string \<times> 'v stored) list \<Rightarrow> 'v api_state" where
  "new_client store =
     \<lparr>username = '''', password = '''', baseUrl = '''', isAuthenticated = False,
      abortControllers = Map.empty, aborted = {}, controllersCreated = 0,
      asyncStorage = store, requests = []\<rparr>"

definition initialize :: "string \<Rightarrow> string \<Rightarrow> string \<Rightarrow> 'v api_state \<Rightarrow> 'v api_state" where
  "initialize user pass serverUrl w =
     w\<lparr>username := user, password := pass, baseUrl := serverUrl, isAuthenticated := True\<rparr>"

subsection \<open>Cache keys\<close>

definition getCacheKey :: "'v api_state \<Rightarrow> string \<Rightarrow> string" where
  "getCacheKey w key = ''cache:'' @ username w @ ''@'' @ baseUrl w @ '':'' @ key"

text \<open>The key builder of the hook \<open>useCachedData\<close>: the bare key until the client is initialised.\<close>

definition hook_getCacheKey :: "'a xtream_scheme \<Rightarrow> string \<Rightarrow> string" where
  "hook_getCacheKey w key =
     (if \<not> isAuthenticated w then key
      else ''cache:'' @ username w @ ''@'' @ baseUrl w @ '':'' @ key)"

subsection \<open>AsyncStorage\<close>

text \<open>
  The four operations of \<open>AsyncStorage\<close> the client uses, on the content of the store.
  Each of them is asynchronous and may reject; the callers below take the outcome as an input.
\<close>

definition getItem :: "(string \<times> 'a) list \<Rightarrow> string \<Rightarrow> 'a option" where
  "getItem store k = map_of store k"

fun setItem :: "string \<Rightarrow> 'a \<Rightarrow> (string \<times> 'a) list \<Rightarrow> (string \<times> 'a) list" where
  "setItem k v [] = [(k, v)]"
| "setItem k v ((k', v') # rest) =
     (if k' = k then (k, v) # rest else (k', v') # setItem k v rest)"

definition getAllKeys :: "(string \<times> 'a) list \<Rightarrow> string list" where
  "getAllKeys store = map fst store"

definition multiRemove :: "string list \<Rightarrow> (string \<times> 'a) list \<Rightarrow> (string \<times> 'a) list" where
  "multiRemove ks store = filter (\<lambda>(k, v). k \<notin> set ks) store"

subsection \<open>Reading and writing the cache\<close>

text \<open>
  What \<open>getFromCache\<close> resolves to: \<open>{data, isValid}\<close>, or \<open>null\<close> (\<open>None\<close>).
\<close>

record 'v cached =
  cached_data :: 'v
  isValid :: bool

text \<open>
  \<open>getFromCache\<close> after its \<open>await AsyncStorage.getItem(cacheKey)\<close>: a rejected read and
  an exception of \<open>JSON.parse\<close> are caught and give \<open>null\<close>; a missing item gives \<open>null\<close>;
  a record without \<open>expiresAt\<close> is not valid (\<open>undefined > Date.now()\<close> is false).
  \<open>now\<close> is the value of \<open>Date.now()\<close>.
\<close>

definition parseCached :: "bool \<Rightarrow> int \<Rightarrow> 'v stored option \<Rightarrow> 'v cached option" where
  "parseCached read_fails now cachedJson =
     (if read_fails then None
      else case cachedJson of
             None \<Rightarrow> None
           | Some Unparsable \<Rightarrow> None
           | Some (Parsed cache) \<Rightarrow>
               Some \<lparr>cached_data = data cache,
                     isValid = (case expiresAt cache of None \<Rightarrow> False | Some e \<Rightarrow> e > now)\<rparr>)"

definition getFromCache :: "bool \<Rightarrow> int \<Rightarrow> 'v api_state \<Rightarrow> string \<Rightarrow> 'v cached option" where
  "getFromCache read_fails now w key =
     (let cacheKey = getCacheKey w key
      in parseCached read_fails now (getItem (asyncStorage w) cacheKey))"

text \<open>
  \<open>saveToCache\<close>: the record it builds reads the clock twice (\<open>timestamp: Date.now()\<close> and
  \<open>expiresAt: Date.now() + duration\<close>); a rejected write is caught and logged.
\<close>

definition cacheData :: "int \<Rightarrow> int \<Rightarrow> 'v \<Rightarrow> int \<Rightarrow> 'v cache_record" where
  "cacheData now1 now2 d duration = \<lparr>data = d, timestamp = now1, expiresAt = Some (now2 + duration)\<rparr>"

definition commitItem :: "bool \<Rightarrow> string \<Rightarrow> 'v cache_record \<Rightarrow> 'v api_state \<Rightarrow> 'v api_state" where
  "commitItem write_fails cacheKey record w =
     (if write_fails then w
      else w\<lparr>asyncStorage := setItem cacheKey (Parsed record) (asyncStorage w)\<rparr>)"

definition saveToCache ::
  "bool \<Rightarrow> int \<Rightarrow> int \<Rightarrow> string \<Rightarrow> 'v \<Rightarrow> int \<Rightarrow> 'v api_state \<Rightarrow> 'v api_state" where
  "saveToCache write_fails now1 now2 key d duration w =
     (let cacheKey = getCacheKey w key
      in commitItem write_fails cacheKey (cacheData now1 now2 d duration) w)"

subsection \<open>fetchWithCache\<close>

text \<open>The ways \<open>optimizedFetch\<close> rejects: abort, network failure, a response that is not ok, bad JSON.\<close>

datatype fetch_error = AbortError | NetworkError | HttpError nat | JsonError

text \<open>
  What the environment answers during one call of \<open>fetchWithCache\<close>: whether the read of
  the store rejects, the clock at the validity test, how \<open>optimizedFetch\<close> settles, the two
  clock readings of \<open>saveToCache\<close>, and whether the write rejects.
\<close>

record 'v answers =
  read_rejects :: bool
  now_lookup :: int
  fetched :: "fetch_error + 'v"
  now_timestamp :: int
  now_expiry :: int
  write_rejects :: bool

text \<open>
  Lines 122 to 139: abort the controller registered under the key, if any; create a
  controller, register it and call \<open>optimizedFetch\<close> with its signal.
\<close>

definition openRequest :: "string \<Rightarrow> string \<Rightarrow> 'v api_state \<Rightarrow> 'v api_state \<times> nat" where
  "openRequest key url w =
     (let w1 = (case abortControllers w key of
                  Some previous \<Rightarrow> w\<lparr>aborted := insert previous (aborted w)\<rparr>
                | None \<Rightarrow> w);
          controller = controllersCreated w1
      in (w1\<lparr>controllersCreated := Suc controller,
              abortControllers := (abortControllers w1)(key \<mapsto> controller),
              requests := requests w1 @ [(controller, url)]\<rparr>,
          controller))"

text \<open>The \<open>finally\<close> block: \<open>delete this.abortControllers[key]\<close>.\<close>

definition removeController :: "string \<Rightarrow> 'v api_state \<Rightarrow> 'v api_state" where
  "removeController key w = w\<lparr>abortControllers := (abortControllers w)(key := None)\<rparr>"

text \<open>The \<open>catch\<close> block: the stale data if a record was read, else the error is thrown again.\<close>

definition onFetchError :: "'v cached option \<Rightarrow> fetch_error \<Rightarrow> fetch_error + 'v" where
  "onFetchError cached err = (case cached of Some c \<Rightarrow> Inr (cached_data c) | None \<Rightarrow> Inl err)"

text \<open>
  One call of \<open>fetchWithCache\<close> that no other call interleaves with. The result is
  \<open>Inr\<close> the value the promise resolves to, or \<open>Inl\<close> the error it rejects with.
  \<open>fetchFresh\<close> is the part from line 122 on.
\<close>

definition fetchFresh ::
  "'v answers \<Rightarrow> 'v cached option \<Rightarrow> string \<Rightarrow> string \<Rightarrow> int \<Rightarrow> 'v api_state
     \<Rightarrow> 'v api_state \<times> (fetch_error + 'v)" where
  "fetchFresh env cached key url cacheDuration w =
     (let (w1, controller) = openRequest key url w
      in case fetched env of
           Inr response \<Rightarrow>
             (removeController key
                (saveToCache (write_rejects env) (now_timestamp env) (now_expiry env)
                   key response cacheDuration w1),
              Inr response)
         | Inl err \<Rightarrow> (removeController key w1, onFetchError cached err))"

definition fetchWithCache ::
  "'v answers \<Rightarrow> string \<Rightarrow> string \<Rightarrow> int \<Rightarrow> 'v api_state \<Rightarrow> 'v api_state \<times> (fetch_error + 'v)" where
  "fetchWithCache env key url cacheDuration w =
     (let cached = getFromCache (read_rejects env) (now_lookup env) w key
      in case cached of
           Some c \<Rightarrow>
             if isValid c then (w, Inr (cached_data c))
             else fetchFresh env cached key url cacheDuration w
         | None \<Rightarrow> fetchFresh env cached key url cacheDuration w)"

subsection \<open>Overlapping calls\<close>

text \<open>
  JavaScript runs one piece of code at a time; a call of \<open>fetchWithCache\<close> gives way to
  other code at its three \<open>await\<close>s. A call in progress is at one of them, with the values
  of its local variables, or it has settled:
  \<^item> \<open>AwaitingCache key url cacheDuration cacheKey\<close>: in \<open>getFromCache\<close>, at
    \<open>await AsyncStorage.getItem(cacheKey)\<close>;
  \<^item> \<open>AwaitingFetch key cacheDuration cached controller\<close>: at \<open>await optimizedFetch(...)\<close>;
  \<^item> \<open>AwaitingSave key response cacheKey record\<close>: in \<open>saveToCache\<close>, at
    \<open>await AsyncStorage.setItem(cacheKey, ...)\<close>;
  \<^item> \<open>Settled r\<close>: the promise has resolved (\<open>Inr\<close>) or rejected (\<open>Inl\<close>).
\<close>

datatype 'v call =
    AwaitingCache string string int string
  | AwaitingFetch string int "'v cached option" nat
  | AwaitingSave string 'v string "'v cache_record"
  | Settled "fetch_error + 'v"

text \<open>The code between two \<open>await\<close>s, as a function of what the awaited operation gave.\<close>

definition afterCacheRead ::
  "'v cached option \<Rightarrow> string \<Rightarrow> string \<Rightarrow> int \<Rightarrow> 'v api_state \<Rightarrow> 'v api_state \<times> 'v call" where
  "afterCacheRead cached key url cacheDuration w =
     (let request = (let (w1, controller) = openRequest key url w
                     in (w1, AwaitingFetch key cacheDuration cached controller))
      in case cached of
           Some c \<Rightarrow> if isValid c then (w, Settled (Inr (cached_data c))) else request
         | None \<Rightarrow> request)"

definition afterFetch ::
  "fetch_error + 'v \<Rightarrow> int \<Rightarrow> int \<Rightarrow> string \<Rightarrow> int \<Rightarrow> 'v cached option \<Rightarrow> 'v api_state
     \<Rightarrow> 'v api_state \<times> 'v call" where
  "afterFetch outcome now1 now2 key cacheDuration cached w =
     (case outcome of
        Inr response \<Rightarrow>
          (w, AwaitingSave key response (getCacheKey w key) (cacheData now1 now2 response cacheDuration))
      | Inl err \<Rightarrow> (removeController key w, Settled (onFetchError cached err)))"

definition afterSave ::
  "bool \<Rightarrow> string \<Rightarrow> 'v \<Rightarrow> string \<Rightarrow> 'v cache_record \<Rightarrow> 'v api_state \<Rightarrow> 'v api_state \<times> 'v call" where
  "afterSave write_fails key response cacheKey record w =
     (removeController key (commitItem write_fails cacheKey record w), Settled (Inr response))"

text \<open>
  The client together with the calls made so far, in the order they were made, and what
  can happen next: a new call, or an awaited operation of call number \<open>n\<close> settles.
  \<open>FetchSettled\<close> carries the outcome of \<open>optimizedFetch\<close> and the two clock readings of
  \<open>saveToCache\<close>. \<open>fetchWithCache\<close> never reads \<open>signal.aborted\<close>: whether an aborted
  request rejects is up to \<open>fetch\<close>, so the outcome is the event's.
  The read of the store and the code that follows it up to the next \<open>await\<close> are one step.
  An event that does not fit the state of its call changes nothing.
\<close>

record 'v system =
  api :: "'v api_state"
  calls :: "'v call list"

datatype 'v event =
    Call string string int
  | CacheRead nat bool int
  | FetchSettled nat "fetch_error + 'v" int int
  | SaveSettled nat bool

definition settle :: "nat \<Rightarrow> 'v api_state \<times> 'v call \<Rightarrow> 'v system \<Rightarrow> 'v system" where
  "settle n r s = s\<lparr>api := fst r, calls := (calls s)[n := snd r]\<rparr>"

fun step :: "'v event \<Rightarrow> 'v system \<Rightarrow> 'v system" where
  "step (Call key url cacheDuration) s =
     s\<lparr>calls := calls s @ [AwaitingCache key url cacheDuration (getCacheKey (api s) key)]\<rparr>"
| "step (CacheRead n read_fails now) s =
     (if n < length (calls s) then
        (case calls s ! n of
           AwaitingCache key url cacheDuration cacheKey \<Rightarrow>
             settle n (afterCacheRead
                         (parseCached read_fails now (getItem (asyncStorage (api s)) cacheKey))
                         key url cacheDuration (api s)) s
         | _ \<Rightarrow> s)
      else s)"
| "step (FetchSettled n outcome now1 now2) s =
     (if n < length (calls s) then
        (case calls s ! n of
           AwaitingFetch key cacheDuration cached controller \<Rightarrow>
             settle n (afterFetch outcome now1 now2 key cacheDuration cached (api s)) s
         | _ \<Rightarrow> s)
      else s)"
| "step (SaveSettled n write_fails) s =
     (if n < length (calls s) then
        (case calls s ! n of
           AwaitingSave key response cacheKey record \<Rightarrow>
             settle n (afterSave write_fails key response cacheKey record (api s)) s
         | _ \<Rightarrow> s)
      else s)"

fun run :: "'v event list \<Rightarrow> 'v system \<Rightarrow> 'v system" where
  "run [] s = s"
| "run (e # es) s = run es (step e s)"

text \<open>
  The network operations in flight for a key: the calls waiting for \<open>optimizedFetch\<close>
  under that key whose controller has not been aborted.
\<close>

fun inFlightFor :: "string \<Rightarrow> nat set \<Rightarrow> 'v call \<Rightarrow> bool" where
  "inFlightFor key ab (AwaitingFetch k cacheDuration cached controller) = (k = key \<and> controller \<notin> ab)"
| "inFlightFor key ab (AwaitingCache k url cacheDuration cacheKey) = False"
| "inFlightFor key ab (AwaitingSave k response cacheKey record) = False"
| "inFlightFor key ab (Settled r) = False"

definition inFlight :: "'v system \<Rightarrow> string \<Rightarrow> 'v call list" where
  "inFlight s key = filter (inFlightFor key (aborted (api s))) (calls s)"

subsection \<open>clearCache\<close>

datatype clear_type = ClearAll | ClearLive | ClearVod | ClearSeries

text \<open>
  \<open>keysToRemove\<close> is the filter of \<open>clearCache\<close> for each of \<open>'all'\<close>, \<open>'live'\<close>,
  \<open>'vod'\<close> and \<open>'series'\<close>. In \<open>clearCache\<close>, a rejection of \<open>getAllKeys\<close> or of
  \<open>multiRemove\<close> is caught and logged; a rejected \<open>multiRemove\<close> removes nothing here.
\<close>

definition keysToRemove :: "clear_type \<Rightarrow> string \<Rightarrow> string list \<Rightarrow> string list" where
  "keysToRemove type cachePrefix keys =
     (case type of
        ClearAll \<Rightarrow> filter (\<lambda>key. startsWith key cachePrefix) keys
      | ClearLive \<Rightarrow>
          filter (\<lambda>key. startsWith key cachePrefix \<and>
                    (str_includes key ''live_categories'' \<or> str_includes key ''live_streams'')) keys
      | ClearVod \<Rightarrow>
          filter (\<lambda>key. startsWith key cachePrefix \<and>
                    (str_includes key ''vod_categories'' \<or> str_includes key ''vod_streams''
                     \<or> str_includes key ''vod_info'')) keys
      | ClearSeries \<Rightarrow>
          filter (\<lambda>key. startsWith key cachePrefix \<and>
                    (str_includes key ''series_categories'' \<or> str_includes key ''series_cat_''
                     \<or> str_includes key ''series_info'' \<or> str_includes key ''series_all'')) keys)"

definition clearCache :: "bool \<Rightarrow> bool \<Rightarrow> clear_type \<Rightarrow> 'v api_state \<Rightarrow> 'v api_state" where
  "clearCache keys_fail remove_fails type w =
     (if keys_fail then w
      else
        let keys = getAllKeys (asyncStorage w);
            cachePrefix = ''cache:'' @ username w @ ''@'' @ baseUrl w @ '':'';
            toRemove = keysToRemove type cachePrefix keys
        in if length toRemove > 0 \<and> \<not> remove_fails
           then w\<lparr>asyncStorage := multiRemove toRemove (asyncStorage w)\<rparr>
           else w)"

section \<open>Stream URLs\<close>

subsection \<open>Numbers and their text\<close>

text \<open>
  The results of \<open>parseInt\<close> and their text in a template literal: \<open>NaN\<close> or an integer
  in decimal. The text is JavaScript's for integers up to \<open>2^53\<close> in absolute value;
  beyond that JavaScript rounds to a double. White space is the ASCII part
  of what \<open>parseInt\<close> skips.
\<close>

datatype number = NaN | Num int

definition digitChars :: string where
  "digitChars = ''0123456789''"

fun showNat :: "nat \<Rightarrow> string" where
  "showNat n = (if n < 10 then [digitChars ! n] else showNat (n div 10) @ [digitChars ! (n mod 10)])"

definition showNumber :: "number \<Rightarrow> string" where
  "showNumber x =
     (case x of
        NaN \<Rightarrow> ''NaN''
      | Num i \<Rightarrow> if i < 0 then ''-'' @ showNat (nat (- i)) else showNat (nat i))"

definition digitValue :: "char \<Rightarrow> int option" where
  "digitValue c = map_of (zip digitChars [0, 1, 2, 3, 4, 5, 6, 7, 8, 9]) c"

definition isWhiteSpace :: "char \<Rightarrow> bool" where
  "isWhiteSpace c = (c \<in> set [CHR 0x09, CHR 0x0A, CHR 0x0B, CHR 0x0C, CHR 0x0D, CHR '' ''])"

text \<open>\<open>parseInt(s, 10)\<close>: white space, an optional sign, then the longest run of digits.\<close>

definition parseInt :: "string \<Rightarrow> number" where
  "parseInt s =
     (let s1 = dropWhile isWhiteSpace s;
          negative = (case s1 of c # rest \<Rightarrow> c = CHR ''-'' | [] \<Rightarrow> False);
          s2 = (case s1 of c # rest \<Rightarrow> if c = CHR ''-'' \<or> c = CHR ''+'' then rest else s1 | [] \<Rightarrow> s1);
          z = takeWhile (\<lambda>c. digitValue c \<noteq> None) s2;
          mathInt = foldl (\<lambda>acc c. 10 * acc + (case digitValue c of Some d \<Rightarrow> d | None \<Rightarrow> 0)) 0 z
      in if z = [] then NaN else Num (if negative then - mathInt else mathInt))"

text \<open>
  \<open>toLowerCase\<close> on ASCII letters. No character outside ASCII has a lower case among the
  letters of \<open>mp4\<close> and \<open>ts\<close>, so the comparisons below are JavaScript's.
\<close>

definition toLowerCase :: "string \<Rightarrow> string" where
  "toLowerCase s =
     map (\<lambda>c. case map_of (zip ''ABCDEFGHIJKLMNOPQRSTUVWXYZ'' ''abcdefghijklmnopqrstuvwxyz'') c of
                 Some l \<Rightarrow> l | None \<Rightarrow> c) s"

subsection \<open>Formats and the URL templates\<close>

datatype format = M3u8 | Mp4 | Ts

fun extension :: "format \<Rightarrow> string" where
  "extension M3u8 = ''m3u8''"
| "extension Mp4 = ''mp4''"
| "extension Ts = ''ts''"

definition getVodStreamingUrl :: "'a xtream_scheme \<Rightarrow> number \<Rightarrow> format \<Rightarrow> string" where
  "getVodStreamingUrl x streamId fmt =
     baseUrl x @ ''/movie/'' @ username x @ ''/'' @ password x @ ''/'' @ showNumber streamId
       @ ''.'' @ extension fmt"

definition getSeriesStreamingUrl :: "'a xtream_scheme \<Rightarrow> number \<Rightarrow> format \<Rightarrow> string" where
  "getSeriesStreamingUrl x streamId fmt =
     baseUrl x @ ''/series/'' @ username x @ ''/'' @ password x @ ''/'' @ showNumber streamId
       @ ''.'' @ extension fmt"

subsection \<open>The movie URL\<close>

text \<open>
  The fields of \<open>MovieData\<close> that \<open>getOptimalMovieStreamingUrl\<close> reads, all optional
  strings as the interface declares them; \<open>movieDetails\<close> itself and its \<open>movie_data\<close>
  may be missing.
  \<open>truthy\<close> is JavaScript's test of an optional string: present and not empty.
\<close>

record MovieData =
  stream_id :: "string option"
  container_extension :: "string option"
  direct_source :: "string option"

record MovieDetails =
  movie_data :: "MovieData option"

definition truthy :: "string option \<Rightarrow> bool" where
  "truthy s = (case s of Some x \<Rightarrow> x \<noteq> [] | None \<Rightarrow> False)"

text \<open>\<open>orEmpty s\<close> is \<open>s || ''\<close>.\<close>

definition orEmpty :: "string option \<Rightarrow> string" where
  "orEmpty s = (case s of Some x \<Rightarrow> x | None \<Rightarrow> '''')"

definition getPreferredStreamFormat :: "string \<Rightarrow> format" where
  "getPreferredStreamFormat containerExtension =
     (if containerExtension = [] then M3u8
      else let ext = toLowerCase containerExtension
           in if ext = ''mp4'' then Mp4
              else if ext = ''ts'' then Ts
              else M3u8)"

definition getOptimalMovieStreamingUrl :: "'a xtream_scheme \<Rightarrow> MovieDetails option \<Rightarrow> string" where
  "getOptimalMovieStreamingUrl x movieDetails =
     (case movieDetails of
        None \<Rightarrow> ''''
      | Some details \<Rightarrow>
          let streamId = Option.bind (movie_data details) stream_id
          in if \<not> truthy streamId then ''''
             else
               let containerExtension = orEmpty (Option.bind (movie_data details) container_extension);
                   fmt = getPreferredStreamFormat containerExtension
               in if truthy (Option.bind (movie_data details) direct_source)
                  then orEmpty (Option.bind (movie_data details) direct_source)
                  else getVodStreamingUrl x (parseInt (orEmpty streamId)) fmt)"

section \<open>The video player\<close>

subsection \<open>Format rotation and retry URLs\<close>

definition formats :: "format list" where
  "formats = [M3u8, Mp4, Ts]"

text \<open>\<open>Array.prototype.indexOf\<close>: the first position of the element, or \<open>-1\<close>.\<close>

fun indexFrom :: "'a list \<Rightarrow> 'a \<Rightarrow> int \<Rightarrow> int" where
  "indexFrom [] x i = - 1"
| "indexFrom (y # ys) x i = (if y = x then i else indexFrom ys x (i + 1))"

definition indexOf :: "'a list \<Rightarrow> 'a \<Rightarrow> int" where
  "indexOf xs x = indexFrom xs x 0"

text \<open>Lines 85 to 87 of \<open>retryWithDifferentFormat\<close>. The index is below the length, so the read is in range.\<close>

definition nextFormat :: "format \<Rightarrow> format" where
  "nextFormat current =
     (let currentIndex = indexOf formats current
      in formats ! nat ((currentIndex + 1) mod int (length formats)))"

definition endsWith :: "string \<Rightarrow> string \<Rightarrow> bool" where
  "endsWith s suffix = startsWith (rev s) (rev suffix)"

text \<open>
  \<open>replaceExtension exts replacement uri\<close> is \<open>uri.replace(/\.(e1|e2|...)$/, replacement)\<close>
  for the extensions \<open>exts\<close>: the pattern is anchored at the end of the string.
\<close>

definition replaceExtension :: "string list \<Rightarrow> string \<Rightarrow> string \<Rightarrow> string" where
  "replaceExtension exts replacement uri =
     (case find (\<lambda>e. endsWith uri (''.'' @ e)) exts of
        None \<Rightarrow> uri
      | Some e \<Rightarrow> take (length uri - length (''.'' @ e)) uri @ replacement)"

text \<open>
  The props of \<open>VideoPlayer\<close> that the retry logic reads. \<open>streamId\<close> is an optional
  number, tested with \<open>if (streamId)\<close>; \<open>onError_given\<close> says whether the caller passed
  an \<open>onError\<close> callback.
\<close>

datatype stream_type = Live | Vod | Series

record props =
  streamId :: "number option"
  streamType :: stream_type
  onError_given :: bool

definition hasStreamId :: "props \<Rightarrow> bool" where
  "hasStreamId p = (case streamId p of Some (Num i) \<Rightarrow> i \<noteq> 0 | Some NaN \<Rightarrow> False | None \<Rightarrow> False)"

definition streamNumber :: "props \<Rightarrow> number" where
  "streamNumber p = (case streamId p of Some n \<Rightarrow> n | None \<Rightarrow> NaN)"

text \<open>Lines 89 to 100: the URL for the next format.\<close>

definition retryUrl :: "'a xtream_scheme \<Rightarrow> props \<Rightarrow> format \<Rightarrow> string \<Rightarrow> string" where
  "retryUrl x p next uri =
     (if streamType p = Live then
        replaceExtension [''m3u8'', ''ts''] (if next = Mp4 then ''.ts'' else ''.'' @ extension next) uri
      else if streamType p = Vod \<and> hasStreamId p then getVodStreamingUrl x (streamNumber p) next
      else if streamType p = Series \<and> hasStreamId p then getSeriesStreamingUrl x (streamNumber p) next
      else replaceExtension [''m3u8'', ''mp4'', ''ts''] (''.'' @ extension next) uri)"

subsection \<open>State of a playback session\<close>

text \<open>
  A retry in progress is first waiting for \<open>unloadAsync()\<close> to resolve and then for its
  one-second timer; it carries the \<open>nextFormat\<close> and \<open>newUrl\<close> its callbacks closed
  over. \<open>origin\<close> records what started it; the code does not read it.
\<close>

datatype trigger = ByError | ByTimeout | ByButton

datatype phase = Unloading | Waiting

datatype retry = Retry (phase: phase) (target: format) (newUrl: string) (origin: trigger)

text \<open>
  The state variables of the component (\<open>useState\<close>), the mutable \<open>source.uri\<close>, whether
  the load timer is pending, whether \<open>videoRef.current\<close> is set, the retries in progress,
  and two logs: the \<open>loadAsync\<close> calls (URL loaded, origin of the retry) and the
  messages passed to \<open>onError\<close>.
\<close>

record player =
  isBuffering :: bool
  isInRetryFlow :: bool
  currentFormat :: format
  playbackAttempt :: nat
  source_uri :: string
  loadTimeoutRef :: bool
  videoRef :: bool
  retries :: "retry list"
  loads :: "(string \<times> trigger) list"
  errors :: "string list"

text \<open>
  A function component is called anew for every render, and the functions it defines
  close over the values the state variables have in that render. \<open>latest_render\<close> is what
  the handlers of the current render see. The load timer is created once, by an effect
  with the dependency list \<open>[]\<close>: its callback sees \<open>first_render\<close>, the initial values
  of the \<open>useState\<close> calls.
\<close>

record render =
  seen_isBuffering :: bool
  seen_isInRetryFlow :: bool
  seen_currentFormat :: format
  seen_playbackAttempt :: nat

definition latest_render :: "player \<Rightarrow> render" where
  "latest_render st =
     \<lparr>seen_isBuffering = isBuffering st, seen_isInRetryFlow = isInRetryFlow st,
      seen_currentFormat = currentFormat st, seen_playbackAttempt = playbackAttempt st\<rparr>"

definition first_render :: render where
  "first_render =
     \<lparr>seen_isBuffering = True, seen_isInRetryFlow = False,
      seen_currentFormat = M3u8, seen_playbackAttempt = 0\<rparr>"

definition mount :: "string \<Rightarrow> player" where
  "mount uri =
     \<lparr>isBuffering = True, isInRetryFlow = False, currentFormat = M3u8, playbackAttempt = 0,
      source_uri = uri, loadTimeoutRef = True, videoRef = True,
      retries = [], loads = [], errors = []\<rparr>"

subsection \<open>Handlers\<close>

definition retryWithDifferentFormat ::
  "'a xtream_scheme \<Rightarrow> props \<Rightarrow> trigger \<Rightarrow> render \<Rightarrow> player \<Rightarrow> player" where
  "retryWithDifferentFormat x p why r st =
     (if seen_isInRetryFlow r then st
      else
        let st1 = st\<lparr>isInRetryFlow := True, isBuffering := True\<rparr>;
            next = nextFormat (seen_currentFormat r);
            url = retryUrl x p next (source_uri st)
        in if videoRef st then st1\<lparr>retries := retries st1 @ [Retry Unloading next url why]\<rparr>
           else st1)"

text \<open>The callback of \<open>unloadAsync().then\<close>, for the oldest retry that is unloading.\<close>

definition onUnloaded :: "props \<Rightarrow> player \<Rightarrow> player" where
  "onUnloaded p st =
     (case List.extract (\<lambda>r. phase r = Unloading) (retries st) of
        None \<Rightarrow> st
      | Some (before, r, after) \<Rightarrow>
          if hasStreamId p then
            st\<lparr>currentFormat := target r, source_uri := newUrl r,
               retries := before @ [Retry Waiting (target r) (newUrl r) (origin r)] @ after\<rparr>
          else
            let st1 = st\<lparr>isInRetryFlow := False, retries := before @ after\<rparr>
            in if onError_given p
               then st1\<lparr>errors := errors st1 @ [''Failed to load with all formats. Please try again later.'']\<rparr>
               else st1)"

text \<open>The callback of the one-second timer, for the oldest retry that is waiting.\<close>

definition onRetryTimer :: "player \<Rightarrow> player" where
  "onRetryTimer st =
     (case List.extract (\<lambda>r. phase r = Waiting) (retries st) of
        None \<Rightarrow> st
      | Some (before, r, after) \<Rightarrow>
          let st1 = (if videoRef st
                     then st\<lparr>loads := loads st @ [(source_uri st, origin r)],
                             playbackAttempt := playbackAttempt st + 1\<rparr>
                     else st)
          in st1\<lparr>isInRetryFlow := False, retries := before @ after\<rparr>)"

text \<open>\<open>handleError\<close>; the error is \<open>Some s\<close> when it is the string \<open>s\<close>.\<close>

definition handleError ::
  "'a xtream_scheme \<Rightarrow> props \<Rightarrow> string option \<Rightarrow> render \<Rightarrow> player \<Rightarrow> player" where
  "handleError x p error r st =
     (if seen_playbackAttempt r < 2 then retryWithDifferentFormat x p ByError r st
      else if onError_given p
           then st\<lparr>errors := errors st @
                       [case error of Some s \<Rightarrow> s | None \<Rightarrow> ''An error occurred during playback'']\<rparr>
           else st)"

text \<open>The callback of the 15-second load timer, with the values its closure holds.\<close>

definition onLoadTimeout :: "'a xtream_scheme \<Rightarrow> props \<Rightarrow> player \<Rightarrow> player" where
  "onLoadTimeout x p st =
     (if \<not> loadTimeoutRef st then st
      else
        let st1 = st\<lparr>loadTimeoutRef := False\<rparr>
        in if seen_isBuffering first_render \<and> seen_playbackAttempt first_render = 0
           then retryWithDifferentFormat x p ByTimeout first_render st1
           else st1)"

text \<open>\<open>onPlaybackStatusUpdate\<close>, without the saving of the position to the history.\<close>

definition onPlaybackStatusUpdate :: "bool \<Rightarrow> bool \<Rightarrow> player \<Rightarrow> player" where
  "onPlaybackStatusUpdate isLoaded buffering st =
     (if isLoaded then st\<lparr>isBuffering := buffering, loadTimeoutRef := False\<rparr> else st)"

text \<open>
  The cleanup of the orientation effect clears the load timer; it runs when \<open>isFullscreen\<close>
  changes and when the component unmounts, where the ref of the video is reset as well.
\<close>

definition onFullscreenChange :: "player \<Rightarrow> player" where
  "onFullscreenChange st = st\<lparr>loadTimeoutRef := False\<rparr>"

definition unmount :: "player \<Rightarrow> player" where
  "unmount st = st\<lparr>loadTimeoutRef := False, videoRef := False\<rparr>"

subsection \<open>Sessions\<close>

text \<open>
  What can happen in a session: the video reports an error, the load timer fires, the
  user presses the format button, an \<open>unloadAsync()\<close> resolves, a one-second timer
  fires, the video reports its status, the user toggles full screen, the component
  unmounts.
\<close>

datatype player_event =
    PlaybackError "string option"
  | LoadTimeout
  | FormatButton
  | Unloaded
  | RetryTimer
  | Status bool bool
  | ToggleFullscreen
  | Unmount

fun player_step :: "'a xtream_scheme \<Rightarrow> props \<Rightarrow> player_event \<Rightarrow> player \<Rightarrow> player" where
  "player_step x p (PlaybackError error) st = handleError x p error (latest_render st) st"
| "player_step x p LoadTimeout st = onLoadTimeout x p st"
| "player_step x p FormatButton st = retryWithDifferentFormat x p ByButton (latest_render st) st"
| "player_step x p Unloaded st = onUnloaded p st"
| "player_step x p RetryTimer st = onRetryTimer st"
| "player_step x p (Status isLoaded buffering) st = onPlaybackStatusUpdate isLoaded buffering st"
| "player_step x p ToggleFullscreen st = onFullscreenChange st"
| "player_step x p Unmount st = unmount st"

fun play :: "'a xtream_scheme \<Rightarrow> props \<Rightarrow> player_event list \<Rightarrow> player \<Rightarrow> player" where
  "play x p [] st = st"
| "play x p (e # es) st = play x p es (player_step x p e st)"

text \<open>
  The format switches that were not asked for by the user: the \<open>loadAsync\<close> calls of
  retries started by an error or by the load timer.
\<close>

definition automaticSwitches :: "player \<Rightarrow> nat" where
  "automaticSwitches st = length (filter (\<lambda>(uri, why). why \<noteq> ByButton) (loads st))"

text \<open>
  A session is timely when the load timer, if it is still pending and fires, fires while
  the state variables have the values its callback closed over.
\<close>

fun timely :: "'a xtream_scheme \<Rightarrow> props \<Rightarrow> player_event list \<Rightarrow> player \<Rightarrow> bool" where
  "timely x p [] st = True"
| "timely x p (e # es) st =
     ((e \<noteq> LoadTimeout \<or> \<not> loadTimeoutRef st \<or> latest_render st = first_render)
      \<and> timely x p es (player_step x p e st))"

text \<open>
  The invariant behind the retry budget: at most one retry is in progress, and then
  \<open>isInRetryFlow\<close> is set; every automatic switch has been counted by \<open>playbackAttempt\<close>;
  and a retry in progress that was not started by the button started below the budget.
\<close>

definition budget_invariant :: "player \<Rightarrow> bool" where
  "budget_invariant st \<longleftrightarrow>
     length (retries st) \<le> 1
     \<and> (retries st = [] \<or> isInRetryFlow st)
     \<and> automaticSwitches st \<le> playbackAttempt st
     \<and> (\<forall>r \<in> set (retries st). origin r = ByButton \<or> playbackAttempt st < 2)
     \<and> automaticSwitches st \<le> 2"

section \<open>Properties of the cache keys\<close>

lemma split_at_first:
  "c \<notin> set u1 \<Longrightarrow> c \<notin> set u2 \<Longrightarrow> u1 @ c # r1 = u2 @ c # r2 \<Longrightarrow> u1 = u2 \<and> r1 = r2"
proof (induction u1 arbitrary: u2)
  case Nil
  then show ?case by (cases u2) auto
next
  case (Cons x xs)
  then show ?case by (cases u2) auto
qed

lemma split_at_last:
  assumes "c \<notin> set k1" "c \<notin> set k2" "b1 @ c # k1 = b2 @ c # k2"
  shows "b1 = b2 \<and> k1 = k2"
proof -
  from assms(3) have "rev (b1 @ c # k1) = rev (b2 @ c # k2)" by simp
  then have "rev k1 @ c # rev b1 = rev k2 @ c # rev b2" by simp
  with assms(1,2) have "rev k1 = rev k2 \<and> rev b1 = rev b2"
    using split_at_first [of c "rev k1" "rev k2" "rev b1" "rev b2"] by simp
  then show ?thesis by simp
qed

lemma getCacheKey_eq_iff:
  "getCacheKey a k = getCacheKey b k' \<longleftrightarrow>
     username a @ CHR ''@'' # baseUrl a @ CHR '':'' # k = username b @ CHR ''@'' # baseUrl b @ CHR '':'' # k'"
  by (simp add: getCacheKey_def)

lemma hook_getCacheKey_initialized:
  "isAuthenticated w \<Longrightarrow> hook_getCacheKey w key = getCacheKey w key"
  by (simp add: hook_getCacheKey_def getCacheKey_def)

text \<open>
  C3, as stated, fails: the user \<open>a@b\<close> on the server \<open>c\<close> and the user \<open>a\<close> on the
  server \<open>b@c\<close> are distinct identities with the same key for every resource.
\<close>

theorem getCacheKey_collision:
  "(''a@b'', ''c'') \<noteq> (''a'', ''b@c'') \<and>
   getCacheKey (initialize ''a@b'' ''p'' ''c'' (new_client ([] :: (string \<times> unit stored) list))) ''live_categories''
     = getCacheKey (initialize ''a'' ''p'' ''b@c'' (new_client ([] :: (string \<times> unit stored) list))) ''live_categories''"
  by (simp add: getCacheKey_def initialize_def new_client_def)

text \<open>
  C3, amended: identities whose user names contain no \<open>@\<close> get distinct keys for every
  resource name; and when the resource names contain no \<open>:\<close> either, no key of one
  identity is a key of the other, whatever the two resource names are.
\<close>

theorem getCacheKey_injective:
  assumes "(username a, baseUrl a) \<noteq> (username b, baseUrl b)"
    and "CHR ''@'' \<notin> set (username a)" and "CHR ''@'' \<notin> set (username b)"
  shows "getCacheKey a k \<noteq> getCacheKey b k \<and>
         (CHR '':'' \<notin> set k \<and> CHR '':'' \<notin> set k' \<longrightarrow> getCacheKey a k \<noteq> getCacheKey b k')"
proof -
  have same: "username a = username b \<and> baseUrl a @ CHR '':'' # x = baseUrl b @ CHR '':'' # y"
    if "getCacheKey a x = getCacheKey b y" for x y
    using that assms(2,3) split_at_first [of "CHR ''@''" "username a" "username b"]
    by (simp add: getCacheKey_eq_iff)
  have first: "getCacheKey a k \<noteq> getCacheKey b k"
  proof
    assume "getCacheKey a k = getCacheKey b k"
    from same [OF this] have "username a = username b" and "baseUrl a = baseUrl b" by simp_all
    with assms(1) show False by simp
  qed
  have second: "getCacheKey a k \<noteq> getCacheKey b k'"
    if "CHR '':'' \<notin> set k" "CHR '':'' \<notin> set k'"
  proof
    assume "getCacheKey a k = getCacheKey b k'"
    from same [OF this] have u: "username a = username b"
      and e: "baseUrl a @ CHR '':'' # k = baseUrl b @ CHR '':'' # k'" by simp_all
    from split_at_last [OF that e] have "baseUrl a = baseUrl b" by simp
    with u assms(1) show False by simp
  qed
  from first second show ?thesis by blast
qed

theorem getCacheKey_injective_witness:
  "CHR ''@'' \<notin> set ''ann'' \<and> CHR ''@'' \<notin> set ''bob'' \<and>
   getCacheKey (initialize ''ann'' ''p'' ''http://tv.example'' (new_client ([] :: (string \<times> unit stored) list))) ''vod_categories''
     \<noteq> getCacheKey (initialize ''bob'' ''q'' ''http://tv.example'' (new_client ([] :: (string \<times> unit stored) list))) ''vod_categories''"
proof -
  let ?a = "initialize ''ann'' ''p'' ''http://tv.example'' (new_client ([] :: (string \<times> unit stored) list))"
  let ?b = "initialize ''bob'' ''q'' ''http://tv.example'' (new_client ([] :: (string \<times> unit stored) list))"
  have h1: "(username ?a, baseUrl ?a) \<noteq> (username ?b, baseUrl ?b)"
    by (simp add: initialize_def new_client_def)
  have h2: "CHR ''@'' \<notin> set (username ?a)" and h3: "CHR ''@'' \<notin> set (username ?b)"
    by (simp_all add: initialize_def new_client_def)
  have "getCacheKey ?a ''vod_categories'' \<noteq> getCacheKey ?b ''vod_categories''"
    using getCacheKey_injective [OF h1 h2 h3] by blast
  then show ?thesis by simp
qed

section \<open>Properties of fetchWithCache\<close>

lemma getItem_setItem:
  "getItem (setItem k v store) k' = (if k' = k then Some v else getItem store k')"
  by (induction store) (auto simp: getItem_def)

lemma getItem_multiRemove:
  "getItem (multiRemove ks store) k = (if k \<in> set ks then None else getItem store k)"
  by (induction store) (auto simp: getItem_def multiRemove_def)

lemma getCacheKey_openRequest [simp]:
  "getCacheKey (fst (openRequest key url w)) k = getCacheKey w k"
  by (simp add: openRequest_def getCacheKey_def Let_def split: option.splits)

lemma asyncStorage_openRequest [simp]:
  "asyncStorage (fst (openRequest key url w)) = asyncStorage w"
  by (simp add: openRequest_def Let_def split: option.splits)

lemma requests_openRequest:
  "requests (fst (openRequest key url w)) = requests w @ [(snd (openRequest key url w), url)]"
  by (simp add: openRequest_def Let_def split: option.splits)

lemma fetchWithCache_hit:
  assumes "getFromCache (read_rejects env) (now_lookup env) w key = Some c" "isValid c"
  shows "fetchWithCache env key url dur w = (w, Inr (cached_data c))"
  using assms by (simp add: fetchWithCache_def Let_def)

lemma fetchWithCache_miss:
  assumes "\<forall>c. getFromCache (read_rejects env) (now_lookup env) w key = Some c \<longrightarrow> \<not> isValid c"
  shows "fetchWithCache env key url dur w =
           fetchFresh env (getFromCache (read_rejects env) (now_lookup env) w key) key url dur w"
  using assms by (simp add: fetchWithCache_def Let_def split: option.splits)

lemma fetchFresh_resolved:
  assumes "fetched env = Inr v"
  shows "snd (fetchFresh env cached key url dur w) = Inr v"
    and "requests (fst (fetchFresh env cached key url dur w)) = requests w @ [(snd (openRequest key url w), url)]"
    and "\<not> write_rejects env \<Longrightarrow> getItem (asyncStorage (fst (fetchFresh env cached key url dur w))) (getCacheKey w key)
           = Some (Parsed (cacheData (now_timestamp env) (now_expiry env) v dur))"
    and "write_rejects env \<Longrightarrow> asyncStorage (fst (fetchFresh env cached key url dur w)) = asyncStorage w"
    and "getCacheKey (fst (fetchFresh env cached key url dur w)) k = getCacheKey w k"
  using assms
  by (simp_all add: fetchFresh_def split_beta Let_def removeController_def saveToCache_def
      commitItem_def getItem_setItem requests_openRequest getCacheKey_def openRequest_def split: option.splits)

lemma fetchFresh_rejected:
  assumes "fetched env = Inl err"
  shows "snd (fetchFresh env cached key url dur w) = onFetchError cached err"
    and "requests (fst (fetchFresh env cached key url dur w)) = requests w @ [(snd (openRequest key url w), url)]"
    and "asyncStorage (fst (fetchFresh env cached key url dur w)) = asyncStorage w"
  using assms
  by (simp_all add: fetchFresh_def split_beta Let_def removeController_def requests_openRequest)


lemma getFromCache_fresh:
  assumes "\<not> read_fails" "getItem (asyncStorage w) (getCacheKey w key) = Some (Parsed entry)"
    "expiresAt entry = Some e" "now < e"
  shows "getFromCache read_fails now w key = Some \<lparr>cached_data = data entry, isValid = True\<rparr>"
  using assms by (simp add: getFromCache_def parseCached_def)

lemma getFromCache_stale:
  assumes "\<not> read_fails" "getItem (asyncStorage w) (getCacheKey w key) = Some (Parsed entry)"
    "\<forall>e. expiresAt entry = Some e \<longrightarrow> e \<le> now"
  shows "getFromCache read_fails now w key = Some \<lparr>cached_data = data entry, isValid = False\<rparr>"
  using assms by (auto simp add: getFromCache_def parseCached_def split: option.splits)

lemma getFromCache_none:
  assumes "read_fails \<or> getItem (asyncStorage w) (getCacheKey w key) = None
           \<or> getItem (asyncStorage w) (getCacheKey w key) = Some Unparsable"
  shows "getFromCache read_fails now w key = None"
  using assms by (auto simp add: getFromCache_def parseCached_def)

text \<open>
  C1. When the store yields a record for the key whose \<open>expiresAt\<close> is later than the
  clock, \<open>fetchWithCache\<close> resolves to the record's data and leaves the client as it was:
  no controller, no request. When it does go to the network and the fetch resolves to
  \<open>v\<close>, the record written has \<open>expiresAt\<close> equal to the clock reading of \<open>saveToCache\<close>
  plus the duration; any later call whose clock is before that instant resolves to \<open>v\<close>
  without a request, and any later call at or after it issues a request.
\<close>

theorem fetchWithCache_freshness:
  "(\<not> read_rejects env \<and> getItem (asyncStorage w) (getCacheKey w key) = Some (Parsed entry)
      \<and> expiresAt entry = Some e \<and> now_lookup env < e
     \<longrightarrow> fetchWithCache env key url dur w = (w, Inr (data entry)))
   \<and>
   ((\<forall>c. getFromCache (read_rejects env) (now_lookup env) w key = Some c \<longrightarrow> \<not> isValid c)
      \<and> fetched env = Inr v \<and> \<not> write_rejects env
     \<longrightarrow> (let w' = fst (fetchWithCache env key url dur w); expiry = now_expiry env + dur in
          snd (fetchWithCache env key url dur w) = Inr v
          \<and> (\<exists>c. requests w' = requests w @ [(c, url)])
          \<and> getItem (asyncStorage w') (getCacheKey w' key)
              = Some (Parsed \<lparr>data = v, timestamp = now_timestamp env, expiresAt = Some expiry\<rparr>)
          \<and> (\<forall>env' url' dur'. \<not> read_rejects env' \<longrightarrow>
               (now_lookup env' < expiry \<longrightarrow> fetchWithCache env' key url' dur' w' = (w', Inr v))
               \<and> (expiry \<le> now_lookup env' \<longrightarrow>
                    (\<exists>c. requests (fst (fetchWithCache env' key url' dur' w')) = requests w' @ [(c, url')])))))"
proof (intro conjI impI)
  assume "\<not> read_rejects env \<and> getItem (asyncStorage w) (getCacheKey w key) = Some (Parsed entry)
      \<and> expiresAt entry = Some e \<and> now_lookup env < e"
  then have "getFromCache (read_rejects env) (now_lookup env) w key
               = Some \<lparr>cached_data = data entry, isValid = True\<rparr>"
    by (simp add: getFromCache_fresh)
  from fetchWithCache_hit [OF this] show "fetchWithCache env key url dur w = (w, Inr (data entry))"
    by simp
next
  assume a: "(\<forall>c. getFromCache (read_rejects env) (now_lookup env) w key = Some c \<longrightarrow> \<not> isValid c)
      \<and> fetched env = Inr v \<and> \<not> write_rejects env"
  define w' where "w' = fst (fetchWithCache env key url dur w)"
  define expiry where "expiry = now_expiry env + dur"
  let ?cached = "getFromCache (read_rejects env) (now_lookup env) w key"
  from a have run: "fetchWithCache env key url dur w = fetchFresh env ?cached key url dur w"
    by (simp add: fetchWithCache_miss)
  from a have f: "fetched env = Inr v" and wr: "\<not> write_rejects env" by simp_all
  have r: "snd (fetchWithCache env key url dur w) = Inr v"
    by (simp add: run fetchFresh_resolved(1) [OF f])
  have q: "\<exists>c. requests w' = requests w @ [(c, url)]"
    by (simp add: w'_def run fetchFresh_resolved(2) [OF f])
  have k: "getCacheKey w' key = getCacheKey w key"
    by (simp add: w'_def run fetchFresh_resolved(5) [OF f])
  have g: "getItem (asyncStorage w') (getCacheKey w' key)
             = Some (Parsed \<lparr>data = v, timestamp = now_timestamp env, expiresAt = Some expiry\<rparr>)"
    using fetchFresh_resolved(3) [OF f wr, of ?cached key url dur w]
    by (simp add: w'_def run cacheData_def expiry_def fetchFresh_resolved(5) [OF f])
  have later: "(now_lookup env' < expiry \<longrightarrow> fetchWithCache env' key url' dur' w' = (w', Inr v))
               \<and> (expiry \<le> now_lookup env' \<longrightarrow>
                    (\<exists>c. requests (fst (fetchWithCache env' key url' dur' w')) = requests w' @ [(c, url')]))"
    if nr: "\<not> read_rejects env'" for env' url' dur'
  proof (intro conjI impI)
    assume "now_lookup env' < expiry"
    with nr g have "getFromCache (read_rejects env') (now_lookup env') w' key
               = Some \<lparr>cached_data = v, isValid = True\<rparr>"
      using getFromCache_fresh [of "read_rejects env'" w' key _ expiry "now_lookup env'"] by simp
    from fetchWithCache_hit [OF this] show "fetchWithCache env' key url' dur' w' = (w', Inr v)"
      by simp
  next
    assume "expiry \<le> now_lookup env'"
    with nr g have s: "getFromCache (read_rejects env') (now_lookup env') w' key
               = Some \<lparr>cached_data = v, isValid = False\<rparr>"
      using getFromCache_stale [of "read_rejects env'" w' key _ "now_lookup env'"] by simp
    then have "fetchWithCache env' key url' dur' w'
                 = fetchFresh env' (Some \<lparr>cached_data = v, isValid = False\<rparr>) key url' dur' w'"
      by (simp add: fetchWithCache_miss)
    moreover have "\<exists>c. requests (fst (fetchFresh env' cached key url' dur' w')) = requests w' @ [(c, url')]"
      for cached
      by (cases "fetched env'") (simp_all add: fetchFresh_resolved(2) fetchFresh_rejected(2))
    ultimately show "\<exists>c. requests (fst (fetchWithCache env' key url' dur' w')) = requests w' @ [(c, url')]"
      by simp
  qed
  from r q g later show "let w' = fst (fetchWithCache env key url dur w); expiry = now_expiry env + dur in
          snd (fetchWithCache env key url dur w) = Inr v
          \<and> (\<exists>c. requests w' = requests w @ [(c, url)])
          \<and> getItem (asyncStorage w') (getCacheKey w' key)
              = Some (Parsed \<lparr>data = v, timestamp = now_timestamp env, expiresAt = Some expiry\<rparr>)
          \<and> (\<forall>env' url' dur'. \<not> read_rejects env' \<longrightarrow>
               (now_lookup env' < expiry \<longrightarrow> fetchWithCache env' key url' dur' w' = (w', Inr v))
               \<and> (expiry \<le> now_lookup env' \<longrightarrow>
                    (\<exists>c. requests (fst (fetchWithCache env' key url' dur' w')) = requests w' @ [(c, url')])))"
    unfolding Let_def w'_def expiry_def by blast
qed


theorem fetchWithCache_freshness_witness:
  "let w = initialize ''u'' ''p'' ''http://h'' (new_client []);
       env0 = \<lparr>read_rejects = False, now_lookup = 0, fetched = Inr (9::nat),
               now_timestamp = 0, now_expiry = 0, write_rejects = False\<rparr>;
       env10 = env0\<lparr>now_lookup := 600000, fetched := Inl NetworkError\<rparr>;
       env31 = env0\<lparr>now_lookup := 1860000\<rparr>;
       w' = fst (fetchWithCache env0 ''vod_streams_all'' ''http://h/get_vod_streams'' 1800000 w)
   in snd (fetchWithCache env0 ''vod_streams_all'' ''http://h/get_vod_streams'' 1800000 w) = Inr 9
      \<and> getItem (asyncStorage w') ''cache:u@http://h:vod_streams_all''
          = Some (Parsed \<lparr>data = 9, timestamp = 0, expiresAt = Some 1800000\<rparr>)
      \<and> requests w' = [(0, ''http://h/get_vod_streams'')]
      \<and> fetchWithCache env10 ''vod_streams_all'' ''http://h/get_vod_streams'' 1800000 w' = (w', Inr 9)
      \<and> requests (fst (fetchWithCache env31 ''vod_streams_all'' ''http://h/get_vod_streams'' 1800000 w'))
          = [(0, ''http://h/get_vod_streams''), (1, ''http://h/get_vod_streams'')]"
proof -
  define w :: "nat api_state" where "w = initialize ''u'' ''p'' ''http://h'' (new_client [])"
  define env0 :: "nat answers" where "env0 = \<lparr>read_rejects = False, now_lookup = 0, fetched = Inr (9::nat),
               now_timestamp = 0, now_expiry = 0, write_rejects = False\<rparr>"
  define w' where "w' = fst (fetchWithCache env0 ''vod_streams_all'' ''http://h/get_vod_streams'' 1800000 w)"
  have w'_eq: "w' = w\<lparr>controllersCreated := 1,
                       asyncStorage := [(''cache:u@http://h:vod_streams_all'',
                                         Parsed \<lparr>data = 9, timestamp = 0, expiresAt = Some 1800000\<rparr>)],
                       requests := [(0, ''http://h/get_vod_streams'')]\<rparr>"
    by (simp add: w'_def w_def env0_def fetchWithCache_def fetchFresh_def getFromCache_def
        parseCached_def getItem_def openRequest_def saveToCache_def commitItem_def cacheData_def
        removeController_def getCacheKey_def initialize_def new_client_def Let_def)
  have miss: "\<forall>c. getFromCache (read_rejects env0) (now_lookup env0) w ''vod_streams_all'' = Some c
                 \<longrightarrow> \<not> isValid c"
    by (simp add: w_def env0_def getFromCache_def parseCached_def getItem_def initialize_def new_client_def)
  have hyp: "fetched env0 = Inr 9 \<and> \<not> write_rejects env0" by (simp add: env0_def)
  from fetchWithCache_freshness
         [where env = env0 and w = w and key = "''vod_streams_all''" and v = 9
            and url = "''http://h/get_vod_streams''" and dur = 1800000, THEN conjunct2]
       miss hyp
  have first: "snd (fetchWithCache env0 ''vod_streams_all'' ''http://h/get_vod_streams'' 1800000 w) = Inr 9"
    and stored: "getItem (asyncStorage w') (getCacheKey w' ''vod_streams_all'')
          = Some (Parsed \<lparr>data = 9, timestamp = 0, expiresAt = Some 1800000\<rparr>)"
    by (simp_all add: Let_def w'_def env0_def)
  have fresh: "\<not> read_rejects (env0\<lparr>now_lookup := 600000, fetched := Inl NetworkError\<rparr>)
      \<and> getItem (asyncStorage w') (getCacheKey w' ''vod_streams_all'')
           = Some (Parsed \<lparr>data = 9, timestamp = 0, expiresAt = Some 1800000\<rparr>)
      \<and> expiresAt \<lparr>data = 9::nat, timestamp = 0, expiresAt = Some 1800000\<rparr> = Some 1800000
      \<and> now_lookup (env0\<lparr>now_lookup := 600000, fetched := Inl NetworkError\<rparr>) < 1800000"
    using stored by (simp add: env0_def)
  from fetchWithCache_freshness
         [where env = "env0\<lparr>now_lookup := 600000, fetched := Inl NetworkError\<rparr>" and w = w'
            and key = "''vod_streams_all''" and e = 1800000
            and entry = "\<lparr>data = 9, timestamp = 0, expiresAt = Some 1800000\<rparr>"
            and url = "''http://h/get_vod_streams''" and dur = 1800000, THEN conjunct1]
       fresh
  have second: "fetchWithCache (env0\<lparr>now_lookup := 600000, fetched := Inl NetworkError\<rparr>)
                  ''vod_streams_all'' ''http://h/get_vod_streams'' 1800000 w' = (w', Inr 9)"
    by simp
  have third: "requests (fst (fetchWithCache (env0\<lparr>now_lookup := 1860000\<rparr>)
                  ''vod_streams_all'' ''http://h/get_vod_streams'' 1800000 w'))
          = [(0, ''http://h/get_vod_streams''), (1, ''http://h/get_vod_streams'')]"
    by (simp add: w'_eq w_def env0_def fetchWithCache_def fetchFresh_def getFromCache_def
        parseCached_def getItem_def openRequest_def saveToCache_def commitItem_def cacheData_def
        removeController_def getCacheKey_def initialize_def new_client_def Let_def)
  have key: "getCacheKey w' ''vod_streams_all'' = ''cache:u@http://h:vod_streams_all''"
    by (simp add: w'_eq w_def getCacheKey_def initialize_def new_client_def)
  have reqs: "requests w' = [(0, ''http://h/get_vod_streams'')]"
    by (simp add: w'_eq)
  from first stored second third key reqs show ?thesis
    unfolding Let_def w'_def w_def env0_def by simp
qed

text \<open>
  C4. When the fetch rejects: if the store yielded a record for the key that is no longer
  fresh, \<open>fetchWithCache\<close> resolves to that record's data; if the lookup gave nothing (no
  item, an item that does not parse, or a rejected read), it rejects with the same error.
\<close>

theorem fetchWithCache_fallback:
  "fetched env = Inl err \<Longrightarrow>
   (\<not> read_rejects env \<and> getItem (asyncStorage w) (getCacheKey w key) = Some (Parsed entry)
      \<and> (\<forall>e. expiresAt entry = Some e \<longrightarrow> e \<le> now_lookup env)
     \<longrightarrow> snd (fetchWithCache env key url dur w) = Inr (data entry))
   \<and> (read_rejects env \<or> getItem (asyncStorage w) (getCacheKey w key) = None
        \<or> getItem (asyncStorage w) (getCacheKey w key) = Some Unparsable
     \<longrightarrow> snd (fetchWithCache env key url dur w) = Inl err)"
proof (intro conjI impI)
  assume f: "fetched env = Inl err"
  assume "\<not> read_rejects env \<and> getItem (asyncStorage w) (getCacheKey w key) = Some (Parsed entry)
      \<and> (\<forall>e. expiresAt entry = Some e \<longrightarrow> e \<le> now_lookup env)"
  then have c: "getFromCache (read_rejects env) (now_lookup env) w key
                  = Some \<lparr>cached_data = data entry, isValid = False\<rparr>"
    by (simp add: getFromCache_stale)
  then have "fetchWithCache env key url dur w
               = fetchFresh env (Some \<lparr>cached_data = data entry, isValid = False\<rparr>) key url dur w"
    by (simp add: fetchWithCache_miss)
  then show "snd (fetchWithCache env key url dur w) = Inr (data entry)"
    by (simp add: fetchFresh_rejected(1) [OF f] onFetchError_def)
next
  assume f: "fetched env = Inl err"
  assume "read_rejects env \<or> getItem (asyncStorage w) (getCacheKey w key) = None
        \<or> getItem (asyncStorage w) (getCacheKey w key) = Some Unparsable"
  then have c: "getFromCache (read_rejects env) (now_lookup env) w key = None"
    by (rule getFromCache_none)
  then have "fetchWithCache env key url dur w = fetchFresh env None key url dur w"
    by (simp add: fetchWithCache_miss)
  then show "snd (fetchWithCache env key url dur w) = Inl err"
    by (simp add: fetchFresh_rejected(1) [OF f] onFetchError_def)
qed


theorem fetchWithCache_fallback_witness:
  "let stale = \<lparr>data = 4::nat, timestamp = 0, expiresAt = Some 100\<rparr>;
       w = initialize ''u'' ''p'' ''http://h''
             (new_client [(''cache:u@http://h:live_categories'', Parsed stale)]);
       w0 = initialize ''u'' ''p'' ''http://h'' (new_client []);
       env = \<lparr>read_rejects = False, now_lookup = 200, fetched = Inl NetworkError,
              now_timestamp = 0, now_expiry = 0, write_rejects = False\<rparr>
   in snd (fetchWithCache env ''live_categories'' ''http://h/get_live_categories'' 3600000 w) = Inr 4
      \<and> snd (fetchWithCache env ''live_categories'' ''http://h/get_live_categories'' 3600000 w0)
          = Inl NetworkError"
proof -
  define stale :: "nat cache_record" where "stale = \<lparr>data = 4::nat, timestamp = 0, expiresAt = Some 100\<rparr>"
  define w where "w = initialize ''u'' ''p'' ''http://h''
             (new_client [(''cache:u@http://h:live_categories'', Parsed stale)])"
  define w0 :: "nat api_state" where "w0 = initialize ''u'' ''p'' ''http://h'' (new_client [])"
  define env :: "nat answers" where "env = \<lparr>read_rejects = False, now_lookup = 200, fetched = Inl NetworkError,
              now_timestamp = 0, now_expiry = 0, write_rejects = False\<rparr>"
  have f: "fetched env = Inl NetworkError" by (simp add: env_def)
  have h1: "\<not> read_rejects env \<and> getItem (asyncStorage w) (getCacheKey w ''live_categories'') = Some (Parsed stale)
      \<and> (\<forall>e. expiresAt stale = Some e \<longrightarrow> e \<le> now_lookup env)"
    by (simp add: env_def w_def stale_def getItem_def getCacheKey_def initialize_def new_client_def)
  have h2: "read_rejects env \<or> getItem (asyncStorage w0) (getCacheKey w0 ''live_categories'') = None
        \<or> getItem (asyncStorage w0) (getCacheKey w0 ''live_categories'') = Some Unparsable"
    by (simp add: w0_def getItem_def getCacheKey_def initialize_def new_client_def)
  from fetchWithCache_fallback [OF f, of w "''live_categories''" stale, THEN conjunct1] h1
  have a: "snd (fetchWithCache env ''live_categories'' ''http://h/get_live_categories'' 3600000 w) = Inr 4"
    by (simp add: stale_def)
  from fetchWithCache_fallback [OF f, of w0 "''live_categories''" stale, THEN conjunct2] h2
  have b: "snd (fetchWithCache env ''live_categories'' ''http://h/get_live_categories'' 3600000 w0)
             = Inl NetworkError"
    by blast
  from a b show ?thesis
    unfolding Let_def w_def w0_def env_def stale_def by simp
qed

lemma snd_openRequest: "snd (openRequest key url w) = controllersCreated w"
  by (simp add: openRequest_def Let_def split: option.splits)

text \<open>
  C9. A rejected read of the store is a miss: the call ends as it would with the item
  absent, the request is issued, and a fetch that resolves gives the caller its value.
  A rejected write is swallowed: the call still resolves to the fetched value, and the
  store is left as it was.
\<close>

theorem cache_failures_fail_open:
  "(read_rejects env \<longrightarrow>
      snd (fetchWithCache env key url dur w)
        = snd (fetchWithCache (env\<lparr>read_rejects := False\<rparr>) key url dur
                 (w\<lparr>asyncStorage := multiRemove [getCacheKey w key] (asyncStorage w)\<rparr>))
      \<and> requests (fst (fetchWithCache env key url dur w)) = requests w @ [(controllersCreated w, url)]
      \<and> (\<forall>v. fetched env = Inr v \<longrightarrow> snd (fetchWithCache env key url dur w) = Inr v))
   \<and> (write_rejects env \<and> fetched env = Inr v
        \<and> (\<forall>c. getFromCache (read_rejects env) (now_lookup env) w key = Some c \<longrightarrow> \<not> isValid c)
      \<longrightarrow> snd (fetchWithCache env key url dur w) = Inr v
          \<and> asyncStorage (fst (fetchWithCache env key url dur w)) = asyncStorage w)"
proof (intro conjI impI allI)
  assume r: "read_rejects env"
  let ?w = "w\<lparr>asyncStorage := multiRemove [getCacheKey w key] (asyncStorage w)\<rparr>"
  let ?env = "env\<lparr>read_rejects := False\<rparr>"
  from r have n: "getFromCache (read_rejects env) (now_lookup env) w key = None"
    by (simp add: getFromCache_none)
  then have run: "fetchWithCache env key url dur w = fetchFresh env None key url dur w"
    by (simp add: fetchWithCache_miss)
  have "getCacheKey ?w key = getCacheKey w key" by (simp add: getCacheKey_def)
  then have "getItem (asyncStorage ?w) (getCacheKey ?w key) = None"
    by (simp add: getItem_multiRemove)
  then have "getFromCache (read_rejects ?env) (now_lookup ?env) ?w key = None"
    by (simp add: getFromCache_none)
  then have run': "fetchWithCache ?env key url dur ?w = fetchFresh ?env None key url dur ?w"
    by (simp add: fetchWithCache_miss)
  show "snd (fetchWithCache env key url dur w) = snd (fetchWithCache ?env key url dur ?w)"
    by (cases "fetched env")
      (simp_all add: run run' fetchFresh_resolved(1) fetchFresh_rejected(1))
  show "requests (fst (fetchWithCache env key url dur w)) = requests w @ [(controllersCreated w, url)]"
    by (cases "fetched env")
      (simp_all add: run fetchFresh_resolved(2) fetchFresh_rejected(2) snd_openRequest)
  show "snd (fetchWithCache env key url dur w) = Inr v'" if "fetched env = Inr v'" for v'
    using that by (simp add: run fetchFresh_resolved(1))
next
  assume a: "write_rejects env \<and> fetched env = Inr v
        \<and> (\<forall>c. getFromCache (read_rejects env) (now_lookup env) w key = Some c \<longrightarrow> \<not> isValid c)"
  then have run: "fetchWithCache env key url dur w
                    = fetchFresh env (getFromCache (read_rejects env) (now_lookup env) w key) key url dur w"
    by (simp add: fetchWithCache_miss)
  from a show "snd (fetchWithCache env key url dur w) = Inr v"
    by (simp add: run fetchFresh_resolved(1))
  from a show "asyncStorage (fst (fetchWithCache env key url dur w)) = asyncStorage w"
    by (simp add: run fetchFresh_resolved(4))
qed

theorem cache_failures_fail_open_witness:
  "let fresh = \<lparr>data = 4::nat, timestamp = 0, expiresAt = Some 100\<rparr>;
       w = initialize ''u'' ''p'' ''http://h''
             (new_client [(''cache:u@http://h:live_categories'', Parsed fresh)]);
       env = \<lparr>read_rejects = True, now_lookup = 50, fetched = Inr 5,
              now_timestamp = 50, now_expiry = 50, write_rejects = True\<rparr>
   in fetchWithCache env ''live_categories'' ''http://h/get_live_categories'' 3600000 w
        = (w\<lparr>controllersCreated := 1, requests := [(0, ''http://h/get_live_categories'')]\<rparr>, Inr 5)"
proof -
  define fresh :: "nat cache_record" where "fresh = \<lparr>data = 4::nat, timestamp = 0, expiresAt = Some 100\<rparr>"
  define w where "w = initialize ''u'' ''p'' ''http://h''
             (new_client [(''cache:u@http://h:live_categories'', Parsed fresh)])"
  define env :: "nat answers" where "env = \<lparr>read_rejects = True, now_lookup = 50, fetched = Inr 5,
              now_timestamp = 50, now_expiry = 50, write_rejects = True\<rparr>"
  let ?r = "fetchWithCache env ''live_categories'' ''http://h/get_live_categories'' 3600000 w"
  have h1: "read_rejects env" by (simp add: env_def)
  have h2: "write_rejects env \<and> fetched env = Inr 5
        \<and> (\<forall>c. getFromCache (read_rejects env) (now_lookup env) w ''live_categories'' = Some c \<longrightarrow> \<not> isValid c)"
    by (simp add: env_def getFromCache_def parseCached_def)
  from cache_failures_fail_open [of env "''live_categories''" "''http://h/get_live_categories''" 3600000 w 5]
    h1 h2
  have "snd ?r = Inr 5" and "asyncStorage (fst ?r) = asyncStorage w"
    and "requests (fst ?r) = requests w @ [(controllersCreated w, ''http://h/get_live_categories'')]"
    by blast+
  moreover have "fst ?r = w\<lparr>controllersCreated := 1, requests := requests (fst ?r),
                             asyncStorage := asyncStorage (fst ?r)\<rparr>"
    by (simp add: w_def env_def fetchWithCache_def fetchFresh_def getFromCache_def
        parseCached_def openRequest_def saveToCache_def commitItem_def
        removeController_def initialize_def new_client_def Let_def)
  ultimately have "?r = (w\<lparr>controllersCreated := 1, requests := [(0, ''http://h/get_live_categories'')]\<rparr>, Inr 5)"
    by (simp add: prod_eq_iff w_def initialize_def new_client_def)
  then show ?thesis
    unfolding Let_def w_def env_def fresh_def by simp
qed

section \<open>Properties of overlapping calls\<close>

text \<open>A call that nothing interleaves with is \<open>fetchWithCache\<close>.\<close>

lemma run_single_call:
  "run [Call key url dur,
        CacheRead 0 (read_rejects env) (now_lookup env),
        FetchSettled 0 (fetched env) (now_timestamp env) (now_expiry env),
        SaveSettled 0 (write_rejects env)] \<lparr>api = w, calls = []\<rparr>
   = \<lparr>api = fst (fetchWithCache env key url dur w),
      calls = [Settled (snd (fetchWithCache env key url dur w))]\<rparr>"
proof -
  let ?cached = "getFromCache (read_rejects env) (now_lookup env) w key"
  let ?s1 = "\<lparr>api = w, calls = [AwaitingCache key url dur (getCacheKey w key)]\<rparr>"
  have s1: "step (Call key url dur) \<lparr>api = w, calls = []\<rparr> = ?s1" by simp
  show ?thesis
  proof (cases "case ?cached of Some c \<Rightarrow> isValid c | None \<Rightarrow> False")
    case True
    then obtain c where c: "?cached = Some c" "isValid c" by (auto split: option.splits)
    then have "fetchWithCache env key url dur w = (w, Inr (cached_data c))"
      by (simp add: fetchWithCache_def Let_def)
    moreover from c have "step (CacheRead 0 (read_rejects env) (now_lookup env)) ?s1
                 = \<lparr>api = w, calls = [Settled (Inr (cached_data c))]\<rparr>"
      by (simp add: afterCacheRead_def settle_def getFromCache_def Let_def)
    ultimately show ?thesis by (simp del: step.simps add: s1) simp
  next
    case False
    then have f: "fetchWithCache env key url dur w = fetchFresh env ?cached key url dur w"
      by (auto simp add: fetchWithCache_def Let_def split: option.splits)
    let ?w1 = "fst (openRequest key url w)"
    from False have s2: "step (CacheRead 0 (read_rejects env) (now_lookup env)) ?s1
                 = \<lparr>api = ?w1, calls = [AwaitingFetch key dur ?cached (snd (openRequest key url w))]\<rparr>"
      by (auto simp add: afterCacheRead_def settle_def getFromCache_def Let_def split_beta split: option.splits)
    show ?thesis
    proof (cases "fetched env")
      case (Inl err)
      then show ?thesis
        by (simp del: step.simps add: s1 s2 f) (simp add: afterFetch_def settle_def fetchFresh_def split_beta)
    next
      case (Inr v)
      then show ?thesis
        by (simp del: step.simps add: s1 s2 f)
          (simp add: afterFetch_def afterSave_def settle_def fetchFresh_def split_beta saveToCache_def
            removeController_def commitItem_def)
    qed
  qed
qed

lemma asyncStorage_removeController [simp]:
  "asyncStorage (removeController key w) = asyncStorage w"
  by (simp add: removeController_def)

lemma step_FetchSettled_rejected:
  assumes "n < length (calls s)" "calls s ! n = AwaitingFetch key dur cached controller"
  shows "asyncStorage (api (step (FetchSettled n (Inl err) t1 t2) s)) = asyncStorage (api s)"
    and "calls (step (FetchSettled n (Inl err) t1 t2) s) ! n = Settled (onFetchError cached err)"
  using assms by (simp_all add: afterFetch_def settle_def)

lemma step_FetchSettled_resolved:
  assumes "n < length (calls s)" "calls s ! n = AwaitingFetch key dur cached controller"
  shows "step (FetchSettled n (Inr v) t1 t2) s
           = s\<lparr>calls := (calls s)[n := AwaitingSave key v (getCacheKey (api s) key) (cacheData t1 t2 v dur)]\<rparr>"
  using assms by (simp add: afterFetch_def settle_def)

lemma step_SaveSettled:
  assumes "n < length (calls s)" "calls s ! n = AwaitingSave key v cacheKey record"
  shows "step (SaveSettled n write_fails) s
           = s\<lparr>api := removeController key (commitItem write_fails cacheKey record (api s)),
               calls := (calls s)[n := Settled (Inr v)]\<rparr>"
  using assms by (simp add: afterSave_def settle_def)

lemma step_writes:
  "asyncStorage (api (step e s)) = asyncStorage (api s)
   \<or> (\<exists>n key response cacheKey record.
         e = SaveSettled n False \<and> n < length (calls s)
         \<and> calls s ! n = AwaitingSave key response cacheKey record
         \<and> asyncStorage (api (step e s)) = setItem cacheKey (Parsed record) (asyncStorage (api s)))"
proof (cases e)
  case (Call key url dur)
  then show ?thesis by simp
next
  case (CacheRead n rf now)
  then show ?thesis
    by (cases "calls s ! n")
      (auto simp add: afterCacheRead_def settle_def Let_def split_beta split: option.splits)
next
  case (FetchSettled n outcome t1 t2)
  then show ?thesis
    by (cases "calls s ! n"; cases outcome) (auto simp add: afterFetch_def settle_def)
next
  case (SaveSettled n wf)
  then show ?thesis
    by (cases "calls s ! n") (auto simp add: afterSave_def settle_def commitItem_def)
qed

lemmas cache_run_defs = afterCacheRead_def
      afterFetch_def afterSave_def settle_def parseCached_def getItem_def onFetchError_def
      removeController_def commitItem_def getCacheKey_def openRequest_def cacheData_def
      initialize_def new_client_def Let_def inFlight_def eval_nat_numeral

text \<open>
  What the registry does when a call reaches the network: the controller registered under
  the key is aborted and the call's own controller takes its place.
\<close>

lemma openRequest_supersedes:
  "abortControllers w key = Some previous \<Longrightarrow>
     previous \<in> aborted (fst (openRequest key url w))
     \<and> abortControllers (fst (openRequest key url w)) key = Some (snd (openRequest key url w))"
  by (simp add: openRequest_def Let_def)

lemma two_calls_one_in_flight:
  "inFlight (run [Call ''live_categories'' ''http://h/get_live_categories'' 3600000, CacheRead 0 False 0,
                  Call ''live_categories'' ''http://h/get_live_categories'' 3600000, CacheRead 1 False 1]
               \<lparr>api = initialize ''u'' ''p'' ''http://h'' (new_client ([] :: (string \<times> string stored) list)),
                  calls = []\<rparr>) ''live_categories''
   = [AwaitingFetch ''live_categories'' 3600000 None 1]"
  by (simp add: cache_run_defs)

text \<open>
  C2 fails on the code: three overlapping calls for one key, nothing cached.
  The second call aborts the first call's controller and registers its own. The first
  call's fetch then rejects and its \<open>finally\<close> block deletes the entry of the key, which
  by now is the second call's controller. The third call finds no controller to abort:
  its request and the second call's are in flight together, and both are later written
  to the cache.
\<close>

theorem three_calls_two_in_flight:
  "let s0 = \<lparr>api = initialize ''u'' ''p'' ''http://h'' (new_client []), calls = []\<rparr>;
       call = Call ''live_categories'' ''http://h/get_live_categories'' 3600000;
       s = run [call, CacheRead 0 False 0,
                call, CacheRead 1 False 1,
                FetchSettled 0 (Inl AbortError) 2 2,
                call, CacheRead 2 False 3] s0;
       s1 = run [FetchSettled 1 (Inr ''second'') 4 4, SaveSettled 1 False] s;
       s2 = run [FetchSettled 2 (Inr ''third'') 5 5, SaveSettled 2 False] s1
   in calls s = [Settled (Inl AbortError),
                 AwaitingFetch ''live_categories'' 3600000 None 1,
                 AwaitingFetch ''live_categories'' 3600000 None 2]
      \<and> aborted (api s) = {0}
      \<and> length (inFlight s ''live_categories'') = 2
      \<and> getItem (asyncStorage (api s1)) ''cache:u@http://h:live_categories''
           = Some (Parsed \<lparr>data = ''second'', timestamp = 4, expiresAt = Some 3600004\<rparr>)
      \<and> getItem (asyncStorage (api s2)) ''cache:u@http://h:live_categories''
           = Some (Parsed \<lparr>data = ''third'', timestamp = 5, expiresAt = Some 3600005\<rparr>)"
proof -
  let ?s0 = "\<lparr>api = initialize ''u'' ''p'' ''http://h'' (new_client []), calls = []\<rparr> :: string system"
  let ?call = "Call ''live_categories'' ''http://h/get_live_categories'' 3600000 :: string event"
  let ?s = "run [?call, CacheRead 0 False 0, ?call, CacheRead 1 False 1,
                 FetchSettled 0 (Inl AbortError) 2 2, ?call, CacheRead 2 False 3] ?s0"
  let ?s1 = "run [FetchSettled 1 (Inr ''second'') 4 4, SaveSettled 1 False] ?s"
  let ?s2 = "run [FetchSettled 2 (Inr ''third'') 5 5, SaveSettled 2 False] ?s1"
  have c1: "calls ?s = [Settled (Inl AbortError),
                 AwaitingFetch ''live_categories'' 3600000 None 1,
                 AwaitingFetch ''live_categories'' 3600000 None 2]"
    by (simp add: cache_run_defs)
  have c2: "aborted (api ?s) = {0}"
    by (simp add: cache_run_defs)
  have c3: "length (inFlight ?s ''live_categories'') = 2"
    by (simp add: cache_run_defs)
  have c4: "getItem (asyncStorage (api ?s1)) ''cache:u@http://h:live_categories''
           = Some (Parsed \<lparr>data = ''second'', timestamp = 4, expiresAt = Some 3600004\<rparr>)"
    by (simp add: cache_run_defs)
  have c5: "getItem (asyncStorage (api ?s2)) ''cache:u@http://h:live_categories''
           = Some (Parsed \<lparr>data = ''third'', timestamp = 5, expiresAt = Some 3600005\<rparr>)"
    by (simp add: cache_run_defs)
  show ?thesis
    unfolding Let_def by (intro conjI) (rule c1 c2 c3 c4 c5)+
qed

text \<open>
  C5, as stated, fails: the second call aborts the first call's controller; the second
  call's result is written; then the first call's fetch resolves all the same and its
  result is written over the newer one.
\<close>

theorem superseded_result_overwrites:
  "let s0 = \<lparr>api = initialize ''u'' ''p'' ''http://h'' (new_client []), calls = []\<rparr>;
       call = Call ''live_categories'' ''http://h/get_live_categories'' 3600000;
       s = run [call, CacheRead 0 False 0, call, CacheRead 1 False 1] s0;
       s' = run [FetchSettled 1 (Inr ''new'') 2 2, SaveSettled 1 False,
                 FetchSettled 0 (Inr ''old'') 3 3, SaveSettled 0 False] s
   in calls s = [AwaitingFetch ''live_categories'' 3600000 None 0,
                 AwaitingFetch ''live_categories'' 3600000 None 1]
      \<and> aborted (api s) = {0}
      \<and> calls s' = [Settled (Inr ''old''), Settled (Inr ''new'')]
      \<and> getItem (asyncStorage (api s')) ''cache:u@http://h:live_categories''
           = Some (Parsed \<lparr>data = ''old'', timestamp = 3, expiresAt = Some 3600003\<rparr>)"
proof -
  let ?s0 = "\<lparr>api = initialize ''u'' ''p'' ''http://h'' (new_client []), calls = []\<rparr> :: string system"
  let ?call = "Call ''live_categories'' ''http://h/get_live_categories'' 3600000 :: string event"
  let ?s = "run [?call, CacheRead 0 False 0, ?call, CacheRead 1 False 1] ?s0"
  let ?s' = "run [FetchSettled 1 (Inr ''new'') 2 2, SaveSettled 1 False,
                  FetchSettled 0 (Inr ''old'') 3 3, SaveSettled 0 False] ?s"
  have c1: "calls ?s = [AwaitingFetch ''live_categories'' 3600000 None 0,
                 AwaitingFetch ''live_categories'' 3600000 None 1]"
    by (simp add: cache_run_defs)
  have c2: "aborted (api ?s) = {0}"
    by (simp add: cache_run_defs)
  have c3: "calls ?s' = [Settled (Inr ''old''), Settled (Inr ''new'')]"
    by (simp add: cache_run_defs)
  have c4: "getItem (asyncStorage (api ?s')) ''cache:u@http://h:live_categories''
           = Some (Parsed \<lparr>data = ''old'', timestamp = 3, expiresAt = Some 3600003\<rparr>)"
    by (simp add: cache_run_defs)
  show ?thesis
    unfolding Let_def by (intro conjI) (rule c1 c2 c3 c4)+
qed


text \<open>
  C5, amended: a call whose fetch rejects writes nothing and settles with the stale data
  or the error; a call whose fetch resolves to a value writes that value under the key
  once its write settles, whatever the state of its controller (there is no generation
  or version token, and the abort signal is not read after the fetch); and every step
  leaves the store as it was or commits the one record of the call whose write settled.
\<close>

theorem late_result_is_written:
  "(n < length (calls s) \<and> calls s ! n = AwaitingFetch key dur cached controller \<longrightarrow>
      (let s' = step (FetchSettled n (Inl err) t1 t2) s
       in asyncStorage (api s') = asyncStorage (api s)
          \<and> calls s' ! n = Settled (onFetchError cached err))
      \<and> (let s' = run [FetchSettled n (Inr v) t1 t2, SaveSettled n False] s
         in getItem (asyncStorage (api s')) (getCacheKey (api s) key)
              = Some (Parsed (cacheData t1 t2 v dur))
            \<and> calls s' ! n = Settled (Inr v)))
   \<and> (asyncStorage (api (step e s)) = asyncStorage (api s)
      \<or> (\<exists>m k response cacheKey record.
            e = SaveSettled m False \<and> m < length (calls s)
            \<and> calls s ! m = AwaitingSave k response cacheKey record
            \<and> asyncStorage (api (step e s)) = setItem cacheKey (Parsed record) (asyncStorage (api s))))"
proof (intro conjI impI)
  assume a: "n < length (calls s) \<and> calls s ! n = AwaitingFetch key dur cached controller"
  then have n: "n < length (calls s)" and c: "calls s ! n = AwaitingFetch key dur cached controller"
    by simp_all
  show "let s' = step (FetchSettled n (Inl err) t1 t2) s
       in asyncStorage (api s') = asyncStorage (api s)
          \<and> calls s' ! n = Settled (onFetchError cached err)"
    unfolding Let_def using step_FetchSettled_rejected [OF n c] by simp
  let ?s1 = "step (FetchSettled n (Inr v) t1 t2) s"
  have s1: "?s1 = s\<lparr>calls := (calls s)[n := AwaitingSave key v (getCacheKey (api s) key) (cacheData t1 t2 v dur)]\<rparr>"
    by (rule step_FetchSettled_resolved [OF n c])
  have n1: "n < length (calls ?s1)" and
    c1: "calls ?s1 ! n = AwaitingSave key v (getCacheKey (api s) key) (cacheData t1 t2 v dur)"
    using n by (simp_all add: s1 del: step.simps)
  have "step (SaveSettled n False) ?s1
          = ?s1\<lparr>api := removeController key (commitItem False (getCacheKey (api s) key) (cacheData t1 t2 v dur) (api ?s1)),
               calls := (calls ?s1)[n := Settled (Inr v)]\<rparr>"
    by (rule step_SaveSettled [OF n1 c1])
  then show "let s' = run [FetchSettled n (Inr v) t1 t2, SaveSettled n False] s
         in getItem (asyncStorage (api s')) (getCacheKey (api s) key)
              = Some (Parsed (cacheData t1 t2 v dur))
            \<and> calls s' ! n = Settled (Inr v)"
    using n by (simp add: Let_def s1 commitItem_def getItem_setItem del: step.simps)
next
  show "asyncStorage (api (step e s)) = asyncStorage (api s)
      \<or> (\<exists>m k response cacheKey record.
            e = SaveSettled m False \<and> m < length (calls s)
            \<and> calls s ! m = AwaitingSave k response cacheKey record
            \<and> asyncStorage (api (step e s)) = setItem cacheKey (Parsed record) (asyncStorage (api s)))"
    by (rule step_writes)
qed


theorem late_result_is_written_witness:
  "let s0 = \<lparr>api = initialize ''u'' ''p'' ''http://h'' (new_client []), calls = []\<rparr>;
       call = Call ''live_categories'' ''http://h/get_live_categories'' 3600000;
       s = run [call, CacheRead 0 False 0, call, CacheRead 1 False 1] s0
   in calls s ! 0 = AwaitingFetch ''live_categories'' 3600000 None 0
      \<and> 0 \<in> aborted (api s)
      \<and> asyncStorage (api (step (FetchSettled 0 (Inl AbortError) 2 2) s)) = []
      \<and> calls (step (FetchSettled 0 (Inl AbortError) 2 2) s) ! 0 = Settled (Inl AbortError)
      \<and> getItem (asyncStorage (api (run [FetchSettled 0 (Inr ''old'') 2 2, SaveSettled 0 False] s)))
           ''cache:u@http://h:live_categories''
         = Some (Parsed \<lparr>data = ''old'', timestamp = 2, expiresAt = Some 3600002\<rparr>)"
proof -
  let ?s0 = "\<lparr>api = initialize ''u'' ''p'' ''http://h'' (new_client []), calls = []\<rparr> :: string system"
  let ?call = "Call ''live_categories'' ''http://h/get_live_categories'' 3600000 :: string event"
  let ?s = "run [?call, CacheRead 0 False 0, ?call, CacheRead 1 False 1] ?s0"
  have calls: "calls ?s = [AwaitingFetch ''live_categories'' 3600000 None 0,
                           AwaitingFetch ''live_categories'' 3600000 None 1]"
    by (simp add: cache_run_defs)
  have h: "0 < length (calls ?s) \<and> calls ?s ! 0 = AwaitingFetch ''live_categories'' 3600000 None 0"
    unfolding calls by simp
  have ab: "0 \<in> aborted (api ?s)"
    by (simp add: cache_run_defs)
  have st: "asyncStorage (api ?s) = []"
    by (simp add: cache_run_defs)
  have key: "getCacheKey (api ?s) ''live_categories'' = ''cache:u@http://h:live_categories''"
    by (simp add: cache_run_defs)
  note inst = late_result_is_written
     [where s = ?s and n = 0 and key = "''live_categories''" and dur = 3600000 and cached = None
        and controller = 0 and err = AbortError and ?t1.0 = 2 and ?t2.0 = 2 and v = "''old''",
      THEN conjunct1, rule_format, OF h, unfolded Let_def]
  from inst have r1: "asyncStorage (api (step (FetchSettled 0 (Inl AbortError) 2 2) ?s)) = []"
    and r2: "calls (step (FetchSettled 0 (Inl AbortError) 2 2) ?s) ! 0 = Settled (Inl AbortError)"
    and r3: "getItem (asyncStorage (api (run [FetchSettled 0 (Inr ''old'') 2 2, SaveSettled 0 False] ?s)))
           ''cache:u@http://h:live_categories''
         = Some (Parsed \<lparr>data = ''old'', timestamp = 2, expiresAt = Some 3600002\<rparr>)"
    unfolding st key by (simp_all add: onFetchError_def cacheData_def del: step.simps run.simps)
  from h have c0: "calls ?s ! 0 = AwaitingFetch ''live_categories'' 3600000 None 0" by simp
  show ?thesis
    unfolding Let_def by (intro conjI) (rule c0 ab r1 r2 r3)+
qed


section \<open>Properties of clearCache\<close>

lemma startsWith_iff: "startsWith s p \<longleftrightarrow> (\<exists>t. s = p @ t)"
  by (induction s p rule: startsWith.induct) auto

lemma keysToRemove_prefixed:
  "k \<in> set (keysToRemove type cachePrefix keys) \<Longrightarrow> startsWith k cachePrefix"
  by (cases type) (auto simp add: keysToRemove_def)

lemma clearCache_keeps:
  assumes "\<not> startsWith k (''cache:'' @ username w @ ''@'' @ baseUrl w @ '':'')"
  shows "getItem (asyncStorage (clearCache keys_fail remove_fails type w)) k = getItem (asyncStorage w) k"
  using assms keysToRemove_prefixed [of k type "''cache:'' @ username w @ ''@'' @ baseUrl w @ '':''"]
  by (auto simp add: clearCache_def Let_def getItem_multiRemove)

lemma other_user_not_prefixed:
  assumes "CHR ''@'' \<notin> set (username w)" "CHR ''@'' \<notin> set (username b)" "username b \<noteq> username w"
  shows "\<not> startsWith (getCacheKey b key) (''cache:'' @ username w @ ''@'' @ baseUrl w @ '':'')"
proof
  assume "startsWith (getCacheKey b key) (''cache:'' @ username w @ ''@'' @ baseUrl w @ '':'')"
  then obtain t where "getCacheKey b key = (''cache:'' @ username w @ ''@'' @ baseUrl w @ '':'') @ t"
    by (auto simp add: startsWith_iff)
  then have "username b @ CHR ''@'' # (baseUrl b @ '':'' @ key) = username w @ CHR ''@'' # (baseUrl w @ '':'' @ t)"
    by (simp add: getCacheKey_def)
  from split_at_first [OF assms(2) assms(1) this] assms(3) show False by simp
qed

text \<open>
  C10, amended: \<open>clearCache\<close>, for each of its four types and whether or not the store
  operations reject, leaves every item whose key does not start with the prefix
  of the active identity (\<open>cache:\<close>, user name, \<open>@\<close>, server, \<open>:\<close>) as it was. That covers every
  key of an identity with another user name, when neither user name contains \<open>@\<close>.
\<close>

theorem clearCache_frame:
  "(\<not> startsWith k (''cache:'' @ username w @ ''@'' @ baseUrl w @ '':'')
      \<longrightarrow> getItem (asyncStorage (clearCache keys_fail remove_fails type w)) k = getItem (asyncStorage w) k)
   \<and> (CHR ''@'' \<notin> set (username w) \<and> CHR ''@'' \<notin> set (username b) \<and> username b \<noteq> username w
      \<longrightarrow> getItem (asyncStorage (clearCache keys_fail remove_fails type w)) (getCacheKey b key)
            = getItem (asyncStorage w) (getCacheKey b key))"
  using clearCache_keeps other_user_not_prefixed by blast

text \<open>
  C10, as stated, fails: the keys of the identity (\<open>u\<close>, \<open>http://h:8080\<close>) start with
  the prefix of the identity (\<open>u\<close>, \<open>http://h\<close>), whose \<open>clearCache('all')\<close> removes them.
\<close>

theorem clearCache_removes_other_identity:
  "let other = initialize ''u'' ''p'' ''http://h:8080'' (new_client ([] :: (string \<times> string stored) list));
       entry = Parsed \<lparr>data = ''x'', timestamp = 0, expiresAt = Some 10\<rparr>;
       w = initialize ''u'' ''p'' ''http://h'' (new_client [(getCacheKey other ''live_categories'', entry)])
   in (username other, baseUrl other) \<noteq> (username w, baseUrl w)
      \<and> getItem (asyncStorage w) (getCacheKey other ''live_categories'') = Some entry
      \<and> getItem (asyncStorage (clearCache False False ClearAll w)) (getCacheKey other ''live_categories'') = None"
  by (simp add: Let_def clearCache_def keysToRemove_def getAllKeys_def multiRemove_def getItem_def
      getCacheKey_def initialize_def new_client_def)

theorem clearCache_frame_witness:
  "let other = initialize ''ann'' ''p'' ''http://h'' (new_client ([] :: (string \<times> string stored) list));
       entry = Parsed \<lparr>data = ''x'', timestamp = 0, expiresAt = Some 10\<rparr>;
       w = initialize ''bob'' ''p'' ''http://h''
             (new_client [(getCacheKey other ''live_categories'', entry),
                          (''cache:bob@http://h:live_categories'', entry),
                          (''@iptv_player_favorites'', Unparsable)])
   in getItem (asyncStorage (clearCache False False ClearLive w)) (getCacheKey other ''live_categories'') = Some entry
      \<and> getItem (asyncStorage (clearCache False False ClearLive w)) ''@iptv_player_favorites'' = Some Unparsable
      \<and> getItem (asyncStorage (clearCache False False ClearLive w)) ''cache:bob@http://h:live_categories'' = None"
proof -
  define other where "other = initialize ''ann'' ''p'' ''http://h'' (new_client ([] :: (string \<times> string stored) list))"
  define entry :: "string stored" where "entry = Parsed \<lparr>data = ''x'', timestamp = 0, expiresAt = Some 10\<rparr>"
  define w where "w = initialize ''bob'' ''p'' ''http://h''
             (new_client [(getCacheKey other ''live_categories'', entry),
                          (''cache:bob@http://h:live_categories'', entry),
                          (''@iptv_player_favorites'', Unparsable)])"
  have h1: "\<not> startsWith ''@iptv_player_favorites'' (''cache:'' @ username w @ ''@'' @ baseUrl w @ '':'')"
    by (simp add: w_def initialize_def new_client_def)
  have h2: "CHR ''@'' \<notin> set (username w) \<and> CHR ''@'' \<notin> set (username other) \<and> username other \<noteq> username w"
    by (simp add: w_def other_def initialize_def new_client_def)
  from clearCache_frame [of "''@iptv_player_favorites''" w False False ClearLive other "''live_categories''"] h1 h2
  have "getItem (asyncStorage (clearCache False False ClearLive w)) ''@iptv_player_favorites''
          = getItem (asyncStorage w) ''@iptv_player_favorites''"
    and "getItem (asyncStorage (clearCache False False ClearLive w)) (getCacheKey other ''live_categories'')
          = getItem (asyncStorage w) (getCacheKey other ''live_categories'')"
    by blast+
  moreover have "getItem (asyncStorage w) ''@iptv_player_favorites'' = Some Unparsable"
    and "getItem (asyncStorage w) (getCacheKey other ''live_categories'') = Some entry"
    by (simp_all add: w_def other_def getItem_def getCacheKey_def initialize_def new_client_def)
  moreover have "getItem (asyncStorage (clearCache False False ClearLive w)) ''cache:bob@http://h:live_categories'' = None"
    by (simp add: w_def other_def clearCache_def keysToRemove_def getAllKeys_def multiRemove_def getItem_def
        getCacheKey_def initialize_def new_client_def)
  ultimately show ?thesis
    unfolding Let_def w_def other_def entry_def by simp
qed

section \<open>Properties of the movie URL\<close>

lemma getVodStreamingUrl_nonempty: "getVodStreamingUrl x n f \<noteq> []"
  by (simp add: getVodStreamingUrl_def)

lemma truthy_orEmpty: "truthy s \<longleftrightarrow> orEmpty s \<noteq> []"
  by (simp add: truthy_def orEmpty_def split: option.splits)

text \<open>
  C7, amended: for an item that has a stream identifier and a direct source URL (both
  present and not empty), \<open>getOptimalMovieStreamingUrl\<close> returns the direct source
  unchanged, whatever URL the template would give; it is a function of the credentials and
  the item alone, with a result for every item; and the result is the empty string
  exactly when the item is missing or has no stream identifier.
\<close>

theorem getOptimalMovieStreamingUrl_policy:
  "(truthy (stream_id md) \<and> direct_source md = Some d \<and> d \<noteq> []
      \<longrightarrow> getOptimalMovieStreamingUrl x (Some \<lparr>movie_data = Some md\<rparr>) = d)
   \<and> (getOptimalMovieStreamingUrl x movieDetails = []
        \<longleftrightarrow> (case movieDetails of
               None \<Rightarrow> True
             | Some details \<Rightarrow> \<not> truthy (Option.bind (movie_data details) stream_id)))"
  by (auto simp add: getOptimalMovieStreamingUrl_def Let_def truthy_orEmpty orEmpty_def
      getVodStreamingUrl_nonempty split: option.splits)

text \<open>
  C7, as stated, fails: an item with a direct source URL and no stream identifier gets
  the empty string, not its direct source.
\<close>

theorem direct_source_without_stream_id:
  "getOptimalMovieStreamingUrl
     \<lparr>username = ''u'', password = ''p'', baseUrl = ''http://h'', isAuthenticated = True\<rparr>
     (Some \<lparr>movie_data = Some \<lparr>stream_id = None, container_extension = Some ''mp4'',
                                   direct_source = Some ''http://cdn.example/film.mp4''\<rparr>\<rparr>)
   \<noteq> ''http://cdn.example/film.mp4''"
  by (simp add: getOptimalMovieStreamingUrl_def truthy_def)

theorem getOptimalMovieStreamingUrl_policy_witness:
  "let x = \<lparr>username = ''u'', password = ''p'', baseUrl = ''http://h'', isAuthenticated = True\<rparr>;
       md = \<lparr>stream_id = Some ''1205'', container_extension = Some ''mp4'',
             direct_source = Some ''http://cdn.example/film.mp4''\<rparr>
   in getOptimalMovieStreamingUrl x (Some \<lparr>movie_data = Some md\<rparr>) = ''http://cdn.example/film.mp4''
      \<and> getOptimalMovieStreamingUrl x (Some \<lparr>movie_data = Some (md\<lparr>direct_source := None\<rparr>)\<rparr>)
          = ''http://h/movie/u/p/1205.mp4''"
proof -
  define x where "x = \<lparr>username = ''u'', password = ''p'', baseUrl = ''http://h'', isAuthenticated = True\<rparr>"
  define md where "md = \<lparr>stream_id = Some ''1205'', container_extension = Some ''mp4'',
             direct_source = Some ''http://cdn.example/film.mp4''\<rparr>"
  have h: "truthy (stream_id md) \<and> direct_source md = Some ''http://cdn.example/film.mp4''
             \<and> ''http://cdn.example/film.mp4'' \<noteq> []"
    by (simp add: md_def truthy_def)
  from getOptimalMovieStreamingUrl_policy [of md "''http://cdn.example/film.mp4''" x, THEN conjunct1] h
  have a: "getOptimalMovieStreamingUrl x (Some \<lparr>movie_data = Some md\<rparr>) = ''http://cdn.example/film.mp4''"
    by blast
  have b: "getOptimalMovieStreamingUrl x (Some \<lparr>movie_data = Some (md\<lparr>direct_source := None\<rparr>)\<rparr>)
          = ''http://h/movie/u/p/1205.mp4''"
    by (simp add: getOptimalMovieStreamingUrl_def truthy_def orEmpty_def getPreferredStreamFormat_def
        toLowerCase_def getVodStreamingUrl_def parseInt_def isWhiteSpace_def digitValue_def digitChars_def
        showNumber_def md_def x_def Let_def)
  from a b show ?thesis
    unfolding Let_def x_def md_def by simp
qed

section \<open>Properties of the video player\<close>

lemma nextFormat_simps [simp]: "nextFormat M3u8 = Mp4" "nextFormat Mp4 = Ts" "nextFormat Ts = M3u8"
  by (simp_all add: nextFormat_def formats_def indexOf_def)

lemmas player_defs = handleError_def retryWithDifferentFormat_def onUnloaded_def onRetryTimer_def
  onLoadTimeout_def onPlaybackStatusUpdate_def onFullscreenChange_def unmount_def
  latest_render_def first_render_def
  automaticSwitches_def List.extract_Nil_code List.extract_Cons_code Let_def

lemma budget_invariant_mount: "budget_invariant (mount uri)"
  by (simp add: budget_invariant_def mount_def automaticSwitches_def)

lemma budget_invariant_step:
  assumes "budget_invariant st"
    and "e \<noteq> LoadTimeout \<or> \<not> loadTimeoutRef st \<or> latest_render st = first_render"
  shows "budget_invariant (player_step x p e st)"
proof (cases "retries st")
  case Nil
  with assms show ?thesis
    by (cases e) (auto simp add: budget_invariant_def player_defs)
next
  case (Cons r rs)
  with assms(1) have rs: "rs = []" and flow: "isInRetryFlow st"
    by (simp_all add: budget_invariant_def)
  show ?thesis
  proof (cases "phase r")
    case Unloading
    with assms Cons rs flow show ?thesis
      by (cases e; cases r) (auto simp add: budget_invariant_def player_defs)
  next
    case Waiting
    with assms Cons rs flow show ?thesis
      by (cases e; cases r) (auto simp add: budget_invariant_def player_defs)
  qed
qed

lemma budget_invariant_play:
  "budget_invariant st \<Longrightarrow> timely x p es st \<Longrightarrow> budget_invariant (play x p es st)"
proof (induction es arbitrary: st)
  case Nil
  then show ?case by simp
next
  case (Cons e es)
  from Cons.prems have "budget_invariant (player_step x p e st)"
    by (auto intro: budget_invariant_step)
  with Cons.IH Cons.prems show ?case by simp
qed


lemmas player_run_defs = handleError_def retryWithDifferentFormat_def onUnloaded_def onRetryTimer_def
  onLoadTimeout_def onPlaybackStatusUpdate_def onFullscreenChange_def unmount_def
  latest_render_def first_render_def
  automaticSwitches_def List.extract_Nil_code List.extract_Cons_code Let_def mount_def
  retryUrl_def hasStreamId_def streamNumber_def getVodStreamingUrl_def showNumber_def digitChars_def

text \<open>
  Where the load timer does not fire late, the budget holds: in a timely session at most
  2 format switches are made automatically; and in any state with \<open>playbackAttempt\<close>
  at 2 or more, a playback error starts no retry and loads nothing, and its message is
  passed to \<open>onError\<close> when the caller gave one.
\<close>

lemma retry_budget:
  "timely x p es (mount uri) \<Longrightarrow>
     automaticSwitches (play x p es (mount uri)) \<le> 2
     \<and> (2 \<le> playbackAttempt st \<longrightarrow>
          (let st' = player_step x p (PlaybackError error) st
           in retries st' = retries st \<and> loads st' = loads st
              \<and> playbackAttempt st' = playbackAttempt st
              \<and> (onError_given p \<longrightarrow>
                    errors st' = errors st @
                      [case error of Some s \<Rightarrow> s | None \<Rightarrow> ''An error occurred during playback''])))"
proof
  assume "timely x p es (mount uri)"
  with budget_invariant_mount have "budget_invariant (play x p es (mount uri))"
    by (rule budget_invariant_play)
  then show "automaticSwitches (play x p es (mount uri)) \<le> 2"
    by (simp add: budget_invariant_def)
next
  show "2 \<le> playbackAttempt st \<longrightarrow>
          (let st' = player_step x p (PlaybackError error) st
           in retries st' = retries st \<and> loads st' = loads st
              \<and> playbackAttempt st' = playbackAttempt st
              \<and> (onError_given p \<longrightarrow>
                    errors st' = errors st @
                      [case error of Some s \<Rightarrow> s | None \<Rightarrow> ''An error occurred during playback'']))"
    by (simp add: handleError_def latest_render_def)
qed

lemma retry_budget_example:
  "let x = \<lparr>username = ''u'', password = ''p'', baseUrl = ''http://h'', isAuthenticated = True\<rparr>;
       p = \<lparr>streamId = Some (Num 7), streamType = Vod, onError_given = True\<rparr>;
       es = [LoadTimeout, Unloaded, RetryTimer, PlaybackError None, Unloaded, RetryTimer];
       st = play x p es (mount ''http://h/movie/u/p/7.m3u8'');
       st' = player_step x p (PlaybackError (Some ''decoder failed'')) st
   in timely x p es (mount ''http://h/movie/u/p/7.m3u8'')
      \<and> automaticSwitches st \<le> 2
      \<and> playbackAttempt st = 2
      \<and> loads st = [(''http://h/movie/u/p/7.mp4'', ByTimeout), (''http://h/movie/u/p/7.ts'', ByError)]
      \<and> retries st' = retries st \<and> loads st' = loads st
      \<and> errors st' = [''decoder failed'']"
proof -
  let ?x = "\<lparr>username = ''u'', password = ''p'', baseUrl = ''http://h'', isAuthenticated = True\<rparr>"
  let ?p = "\<lparr>streamId = Some (Num 7), streamType = Vod, onError_given = True\<rparr>"
  let ?es = "[LoadTimeout, Unloaded, RetryTimer, PlaybackError None, Unloaded, RetryTimer]"
  let ?st = "play ?x ?p ?es (mount ''http://h/movie/u/p/7.m3u8'')"
  let ?st' = "player_step ?x ?p (PlaybackError (Some ''decoder failed'')) ?st"
  have t: "timely ?x ?p ?es (mount ''http://h/movie/u/p/7.m3u8'')"
    by (simp add: player_run_defs)
  have a: "playbackAttempt ?st = 2"
    by (simp add: player_run_defs)
  have l: "loads ?st = [(''http://h/movie/u/p/7.mp4'', ByTimeout), (''http://h/movie/u/p/7.ts'', ByError)]"
    by (simp add: player_run_defs)
  have e: "errors ?st = []"
    by (simp add: player_run_defs)
  have g: "onError_given ?p" by simp
  have a2: "2 \<le> playbackAttempt ?st" by (simp only: a)
  note inst = retry_budget [OF t, where st = ?st and error = "Some ''decoder failed''"]
  from inst have b: "automaticSwitches ?st \<le> 2" by (rule conjunct1)
  from inst a2 g have "retries ?st' = retries ?st \<and> loads ?st' = loads ?st
      \<and> errors ?st' = errors ?st @ [''decoder failed'']"
    unfolding Let_def by (simp del: play.simps player_step.simps)
  then have r: "retries ?st' = retries ?st" and l': "loads ?st' = loads ?st"
    and e': "errors ?st' = [''decoder failed'']"
    unfolding e by simp_all
  show ?thesis
    unfolding Let_def by (intro conjI) (rule t b a l r l' e')+
qed

text \<open>
  \<open>playbackAttempt\<close> also counts the switches the user asks for with the format button.
\<close>

lemma format_button_counts:
  "playbackAttempt
     (play \<lparr>username = ''u'', password = ''p'', baseUrl = ''http://h'', isAuthenticated = True\<rparr>
        \<lparr>streamId = Some (Num 7), streamType = Vod, onError_given = True\<rparr>
        [FormatButton, Unloaded, RetryTimer,
         FormatButton, Unloaded, RetryTimer,
         FormatButton, Unloaded, RetryTimer]
        (mount ''http://h/movie/u/p/7.m3u8'')) = 3"
  by (simp add: player_run_defs)

text \<open>
  C6 fails on the code. The load timer's callback tests \<open>isBuffering\<close> and
  \<open>playbackAttempt === 0\<close>, and \<open>retryWithDifferentFormat\<close> tests \<open>isInRetryFlow\<close>, with
  the values of the first render, so the tests always pass. In a session where no format
  loads, two playback errors use up the budget and the third is passed to \<open>onError\<close>;
  the load timer then fires and switches the format a third time, without any action of
  the user: three automatic switches, \<open>playbackAttempt\<close> at 3, and a retry after the
  error has been surfaced.
\<close>

theorem late_timer_exceeds_budget:
  "let st = play \<lparr>username = ''u'', password = ''p'', baseUrl = ''http://h'', isAuthenticated = True\<rparr>
              \<lparr>streamId = Some (Num 7), streamType = Vod, onError_given = True\<rparr>
              [PlaybackError None, Unloaded, RetryTimer,
               PlaybackError None, Unloaded, RetryTimer,
               PlaybackError (Some ''decoder failed''),
               LoadTimeout, Unloaded, RetryTimer]
              (mount ''http://h/movie/u/p/7.m3u8'')
   in automaticSwitches st = 3
      \<and> playbackAttempt st = 3
      \<and> errors st = [''decoder failed'']
      \<and> loads st = [(''http://h/movie/u/p/7.mp4'', ByError),
                     (''http://h/movie/u/p/7.ts'', ByError),
                     (''http://h/movie/u/p/7.mp4'', ByTimeout)]"
proof -
  let ?st = "play \<lparr>username = ''u'', password = ''p'', baseUrl = ''http://h'', isAuthenticated = True\<rparr>
              \<lparr>streamId = Some (Num 7), streamType = Vod, onError_given = True\<rparr>
              [PlaybackError None, Unloaded, RetryTimer,
               PlaybackError None, Unloaded, RetryTimer,
               PlaybackError (Some ''decoder failed''),
               LoadTimeout, Unloaded, RetryTimer]
              (mount ''http://h/movie/u/p/7.m3u8'')"
  have c1: "automaticSwitches ?st = 3"
    by (simp add: player_run_defs)
  have c2: "playbackAttempt ?st = 3"
    by (simp add: player_run_defs)
  have c3: "errors ?st = [''decoder failed'']"
    by (simp add: player_run_defs)
  have c4: "loads ?st = [(''http://h/movie/u/p/7.mp4'', ByError),
                        (''http://h/movie/u/p/7.ts'', ByError),
                        (''http://h/movie/u/p/7.mp4'', ByTimeout)]"
    by (simp add: player_run_defs)
  show ?thesis
    unfolding Let_def by (intro conjI) (rule c1 c2 c3 c4)+
qed

text \<open>
  The rotation itself is a cycle: three steps from any format visit three distinct formats
  and end at the start. A retry started by a handler of the latest render (the format
  button, or a playback error within the budget) moves \<open>currentFormat\<close> one step along it,
  in a session with a stream identifier.
\<close>

lemma nextFormat_cycle:
  "nextFormat (nextFormat (nextFormat f)) = f
   \<and> distinct [nextFormat f, nextFormat (nextFormat f), nextFormat (nextFormat (nextFormat f))]"
  by (cases f) simp_all

lemma retry_round:
  assumes "hasStreamId p" "videoRef st" "\<not> isInRetryFlow st" "retries st = []"
  shows "currentFormat (play x p [FormatButton, Unloaded, RetryTimer] st) = nextFormat (currentFormat st)"
    and "playbackAttempt st < 2 \<Longrightarrow>
         currentFormat (play x p [PlaybackError error, Unloaded, RetryTimer] st) = nextFormat (currentFormat st)"
  using assms
  by (simp_all add: handleError_def retryWithDifferentFormat_def onUnloaded_def onRetryTimer_def
      latest_render_def List.extract_Nil_code List.extract_Cons_code Let_def)

text \<open>
  C8 fails on the code. The load timer's callback computes the next format from the
  \<open>currentFormat\<close> of the first render, which is \<open>m3u8\<close> whatever the format is by then.
  Three consecutive retries, started by a playback error, by the load timer and by the
  format button, set the format to \<open>mp4\<close>, to \<open>mp4\<close> again and to \<open>ts\<close>; the URLs loaded
  have these extensions, and \<open>m3u8\<close> is not visited.
\<close>

theorem late_timer_repeats_format:
  "let x = \<lparr>username = ''u'', password = ''p'', baseUrl = ''http://h'', isAuthenticated = True\<rparr>;
       p = \<lparr>streamId = Some (Num 7), streamType = Series, onError_given = True\<rparr>;
       st1 = play x p [PlaybackError None, Unloaded, RetryTimer] (mount ''http://h/series/u/p/7.m3u8'');
       st2 = play x p [LoadTimeout, Unloaded, RetryTimer] st1;
       st3 = play x p [FormatButton, Unloaded, RetryTimer] st2
   in currentFormat st1 = Mp4 \<and> currentFormat st2 = Mp4 \<and> currentFormat st3 = Ts
      \<and> loads st3 = [(''http://h/series/u/p/7.mp4'', ByError),
                      (''http://h/series/u/p/7.mp4'', ByTimeout),
                      (''http://h/series/u/p/7.ts'', ByButton)]"
proof -
  let ?x = "\<lparr>username = ''u'', password = ''p'', baseUrl = ''http://h'', isAuthenticated = True\<rparr>"
  let ?p = "\<lparr>streamId = Some (Num 7), streamType = Series, onError_given = True\<rparr>"
  let ?st1 = "play ?x ?p [PlaybackError None, Unloaded, RetryTimer] (mount ''http://h/series/u/p/7.m3u8'')"
  let ?st2 = "play ?x ?p [LoadTimeout, Unloaded, RetryTimer] ?st1"
  let ?st3 = "play ?x ?p [FormatButton, Unloaded, RetryTimer] ?st2"
  have c1: "currentFormat ?st1 = Mp4"
    by (simp add: player_run_defs getSeriesStreamingUrl_def)
  have c2: "currentFormat ?st2 = Mp4"
    by (simp add: player_run_defs getSeriesStreamingUrl_def)
  have c3: "currentFormat ?st3 = Ts"
    by (simp add: player_run_defs getSeriesStreamingUrl_def)
  have c4: "loads ?st3 = [(''http://h/series/u/p/7.mp4'', ByError),
                         (''http://h/series/u/p/7.mp4'', ByTimeout),
                         (''http://h/series/u/p/7.ts'', ByButton)]"
    by (simp add: player_run_defs getSeriesStreamingUrl_def)
  show ?thesis
    unfolding Let_def by (intro conjI) (rule c1 c2 c3 c4)+
qed

end
